theory Spec2Isabelle
  imports Main "HOL-Library.Char_ord" "HOL-Library.List_Lexorder"
begin

section \<open>JavaScript values\<close>

text \<open>
  An optional string parameter of the service (\<^verbatim>\<open>string | undefined\<close>) is a
  \<open>string option\<close>. A JavaScript condition on such a value tests its truthiness:
  \<^verbatim>\<open>undefined\<close> and the empty string are falsy. Strings are lists of 8-bit
  characters, so the model covers code units up to 255.
\<close>

definition truthy :: "string option \<Rightarrow> bool" where
  "truthy v = (case v of None \<Rightarrow> False | Some s \<Rightarrow> s \<noteq> [])"

text \<open>A template literal renders \<^verbatim>\<open>undefined\<close> as the text "undefined".\<close>

definition tmpl :: "string option \<Rightarrow> string" where
  "tmpl v = (case v of None \<Rightarrow> ''undefined'' | Some s \<Rightarrow> s)"

text \<open>The white space that \<^verbatim>\<open>String.prototype.trim\<close> removes, among the code units up to 255.\<close>

definition is_ws :: "char \<Rightarrow> bool" where
  "is_ws c = (of_char c \<in> {9, 10, 11, 12, 13, 32, 160 :: nat})"

definition trim :: "string \<Rightarrow> string" where
  "trim s = rev (dropWhile is_ws (rev (dropWhile is_ws s)))"

text \<open>\<^verbatim>\<open>x?.trim()\<close>\<close>

definition opt_trim :: "string option \<Rightarrow> string option" where
  "opt_trim v = map_option trim v"

text \<open>\<^verbatim>\<open>a ?? b\<close>\<close>

definition nullish :: "'a option \<Rightarrow> 'a \<Rightarrow> 'a" where
  "nullish v d = (case v of None \<Rightarrow> d | Some x \<Rightarrow> x)"

definition is_digit :: "char \<Rightarrow> bool" where
  "is_digit c = (48 \<le> (of_char c :: nat) \<and> (of_char c :: nat) \<le> 57)"

text \<open>
  A JavaScript number, a double: one whose value is an integer, not-a-number, or an
  infinity. The numbers of this service are offsets, which have no fraction.
\<close>

datatype js_number = Num int | NaN | PosInf | NegInf

text \<open>The number of binary digits of a natural number.\<close>

fun bitlen :: "nat \<Rightarrow> nat" where
  "bitlen n = (if n = 0 then 0 else Suc (bitlen (n div 2)))"

text \<open>
  The double nearest to an integer. Up to \<open>2 ^ 53\<close> in magnitude every integer is a
  double. Beyond, the doubles are the multiples of \<open>u = 2 ^ (bitlen a - 53)\<close>: the
  integer is rounded to the nearest one, to the even significand on a tie, and to an
  infinity from \<open>2 ^ 1024\<close> on.
\<close>

definition toDouble :: "int \<Rightarrow> js_number" where
  "toDouble k =
     (let a = nat \<bar>k\<bar> in
      if a \<le> 2 ^ 53 then Num k
      else (let u = 2 ^ (bitlen a - 53); q = a div u; r = a mod u;
                q' = (if 2 * r < u \<or> (2 * r = u \<and> even q) then q else q + 1);
                v = q' * u
            in if 2 ^ 1024 \<le> v then (if k < 0 then NegInf else PosInf)
               else Num (if k < 0 then - int v else int v)))"

text \<open>
  \<^verbatim>\<open>parseInt(s, 10)\<close>: leading white space is skipped, a sign is read, then the
  longest run of decimal digits; with no digit the result is NaN, otherwise the double
  nearest to the integer read.
\<close>

definition digit_val :: "char \<Rightarrow> int" where
  "digit_val c = int (of_char c) - 48"

definition decimal :: "string \<Rightarrow> int" where
  "decimal ds = foldl (\<lambda>acc c. 10 * acc + digit_val c) 0 ds"

definition parseInt :: "string \<Rightarrow> js_number" where
  "parseInt s =
     (let t = dropWhile is_ws s;
          neg = (case t of [] \<Rightarrow> False | c # _ \<Rightarrow> c = CHR ''-'');
          u = (case t of [] \<Rightarrow> [] | c # r \<Rightarrow> if c = CHR ''-'' \<or> c = CHR ''+'' then r else t);
          ds = takeWhile is_digit u
      in if ds = [] then NaN else toDouble (if neg then - decimal ds else decimal ds))"

section \<open>Base64\<close>

text \<open>
  The codec of Node's \<^verbatim>\<open>Buffer\<close> and of \<^verbatim>\<open>btoa\<close>, which the service calls
  but does not define: RFC 4648 with padding on encoding; decoding skips the characters
  outside the alphabet, takes the URL-safe \<^verbatim>\<open>-\<close> and \<^verbatim>\<open>_\<close> too, and stops at the
  first \<^verbatim>\<open>=\<close>. A byte is a \<open>char\<close>.
\<close>

type_synonym bytes = "char list"

definition b64_digit :: "nat \<Rightarrow> char" where
  "b64_digit n =
     (if n < 26 then char_of (65 + n)
      else if n < 52 then char_of (71 + n)
      else if n < 62 then char_of (n - 4)
      else if n = 62 then CHR ''+'' else CHR ''/'')"

definition b64_value :: "char \<Rightarrow> nat option" where
  "b64_value c =
     (let k = (of_char c :: nat) in
      if 65 \<le> k \<and> k \<le> 90 then Some (k - 65)
      else if 97 \<le> k \<and> k \<le> 122 then Some (k - 71)
      else if 48 \<le> k \<and> k \<le> 57 then Some (k + 4)
      else if c = CHR ''+'' \<or> c = CHR ''-'' then Some 62
      else if c = CHR ''/'' \<or> c = CHR ''_'' then Some 63
      else None)"

fun b64_groups :: "nat list \<Rightarrow> string" where
  "b64_groups [] = []"
| "b64_groups [a] = [b64_digit (a div 4), b64_digit ((a mod 4) * 16), CHR ''='', CHR ''='']"
| "b64_groups [a, b] =
     [b64_digit (a div 4), b64_digit ((a mod 4) * 16 + b div 16),
      b64_digit ((b mod 16) * 4), CHR ''='']"
| "b64_groups (a # b # c # r) =
     b64_digit (a div 4) # b64_digit ((a mod 4) * 16 + b div 16) #
     b64_digit ((b mod 16) * 4 + c div 64) # b64_digit (c mod 64) # b64_groups r"

text \<open>\<^verbatim>\<open>Buffer.from(bytes).toString("base64")\<close>, and \<^verbatim>\<open>btoa(s)\<close> on the code units of \<open>s\<close>.\<close>

definition toBase64 :: "bytes \<Rightarrow> string" where
  "toBase64 bs = b64_groups (map of_char bs)"

definition btoa :: "string \<Rightarrow> string" where
  "btoa s = toBase64 s"

fun sextets_bytes :: "nat list \<Rightarrow> nat list" where
  "sextets_bytes (p # q # r # s # rest) =
     (p * 4 + q div 16) # ((q mod 16) * 16 + r div 4) # ((r mod 4) * 64 + s) # sextets_bytes rest"
| "sextets_bytes [p, q, r] = [p * 4 + q div 16, (q mod 16) * 16 + r div 4]"
| "sextets_bytes [p, q] = [p * 4 + q div 16]"
| "sextets_bytes _ = []"

text \<open>\<^verbatim>\<open>Buffer.from(s, "base64")\<close>\<close>

definition fromBase64 :: "string \<Rightarrow> bytes" where
  "fromBase64 s =
     map char_of (sextets_bytes (List.map_filter b64_value (takeWhile (\<lambda>c. c \<noteq> CHR ''='') s)))"

section \<open>Errors\<close>

text \<open>
  \<^verbatim>\<open>CustomError(message, code)\<close> is the service's domain error; \<open>Error\<close> is any other
  exception, the one a store client or a collaborator throws, with its message.
\<close>

datatype js_error = CustomError string nat | Error string

fun message :: "js_error \<Rightarrow> string" where
  "message (CustomError m c) = m"
| "message (Error m) = m"

section \<open>The stores and the collaborators\<close>

text \<open>
  The blob store is the list of the bucket's objects, key and body. The relational store
  has the three tables that ingestion fills. A Package row has the column \<^verbatim>\<open>id\<close>, the
  numeric key that the store generates (\<open>pk_rowid\<close>), beside the column
  \<^verbatim>\<open>package_id\<close>, the identity of the package (\<open>pk_id\<close>). \<open>trace\<close> records every call that leaves the
  service, in order, so that "before any store is touched" and "phase 1 before phase 2"
  are statements about it.
\<close>

record package_row =
  pk_rowid :: int
  pk_name :: "string option"
  pk_version :: string
  pk_id :: string
  pk_content_type :: bool

record package_data_row =
  pd_id :: string
  pd_content_type :: bool
  pd_url :: "string option"
  pd_debloat :: bool
  pd_js_program :: "string option"

datatype event =
    CallGetPackageInfoRepo string string
  | CallGetPackageInfoZipFile string
  | HttpGet string
  | DbPackageExists string
  | DbInsertPackage string
  | DbInsertMetadata string
  | DbInsertPackageData string
  | DbSelectPackage string
  | DbGetPackages
  | DbExecuteSqlFile
  | S3PutObject string
  | S3GetObject string
  | S3ListObjects string
  | S3DeleteObjects "string list"

fun is_write :: "event \<Rightarrow> bool" where
  "is_write (DbInsertPackage _) = True"
| "is_write (DbInsertMetadata _) = True"
| "is_write (DbInsertPackageData _) = True"
| "is_write DbExecuteSqlFile = True"
| "is_write (S3PutObject _) = True"
| "is_write (S3DeleteObjects _) = True"
| "is_write _ = False"

fun is_store_call :: "event \<Rightarrow> bool" where
  "is_store_call (CallGetPackageInfoRepo _ _) = False"
| "is_store_call (CallGetPackageInfoZipFile _) = False"
| "is_store_call (HttpGet _) = False"
| "is_store_call _ = True"

record world =
  s3 :: "(string \<times> bytes) list"
  packages :: "package_row list"
  package_metadata :: "(string option \<times> string \<times> string) list"
  package_data :: "package_data_row list"
  trace :: "event list"

text \<open>
  What the service is given and does not define: the bucket name of the process
  environment, the \<^verbatim>\<open>uuid\<close> library's \<^verbatim>\<open>v5\<close>, the two package-json readers, the HTTP
  client, and for each store operation whether it fails, with which message. Of the
  relational store, whose schema is not among the sources: \<open>readId\<close>, the integer that
  the store reads in a text parameter compared with the numeric column \<^verbatim>\<open>id\<close>, none when
  it refuses the text; and \<open>failedReset\<close>, what a schema reset that fails leaves of the
  three tables.
\<close>

datatype op =
    OpPackageExists | OpInsertPackage | OpInsertMetadata | OpInsertPackageData
  | OpSelectPackage | OpGetPackages | OpExecuteSqlFile
  | OpPutObject | OpGetObject | OpListObjects | OpDeleteObjects

record pkg_info =
  info_name :: "string option"
  info_version :: "string option"

type_synonym tables =
  "package_row list \<times> (string option \<times> string \<times> string) list \<times> package_data_row list"

record env =
  bucketName :: "string option"
  uuidv5 :: "string \<Rightarrow> string \<Rightarrow> string"
  getPackageInfoRepo :: "string \<Rightarrow> string \<Rightarrow> js_error + pkg_info option"
  getPackageInfoZipFile :: "string \<Rightarrow> js_error + pkg_info option"
  axios_get :: "string \<Rightarrow> js_error + bytes"
  fault :: "op \<Rightarrow> string option"
  readId :: "string \<Rightarrow> int option"
  failedReset :: "tables \<Rightarrow> tables"

subsection \<open>Computations that may throw\<close>

type_synonym 'a io = "world \<Rightarrow> (js_error + 'a) \<times> world"

definition ret :: "'a \<Rightarrow> 'a io" where
  "ret x w = (Inr x, w)"

definition throw :: "js_error \<Rightarrow> 'a io" where
  "throw e w = (Inl e, w)"

definition io_bind :: "'a io \<Rightarrow> ('a \<Rightarrow> 'b io) \<Rightarrow> 'b io" where
  "io_bind m f w = (case m w of (Inl e, w') \<Rightarrow> (Inl e, w') | (Inr x, w') \<Rightarrow> f x w')"

definition try_catch :: "'a io \<Rightarrow> (js_error \<Rightarrow> 'a io) \<Rightarrow> 'a io" where
  "try_catch m h w = (case m w of (Inl e, w') \<Rightarrow> h e w' | (Inr x, w') \<Rightarrow> (Inr x, w'))"

definition emit :: "event \<Rightarrow> world \<Rightarrow> world" where
  "emit ev w = w\<lparr>trace := trace w @ [ev]\<rparr>"

text \<open>A call of a collaborator: recorded, and its outcome is the collaborator's.\<close>

definition call :: "event \<Rightarrow> (js_error + 'a) \<Rightarrow> 'a io" where
  "call ev r w = (r, emit ev w)"

text \<open>A store operation: recorded; it either fails without effect or runs.\<close>

definition store_op :: "env \<Rightarrow> op \<Rightarrow> event \<Rightarrow> 'a io \<Rightarrow> 'a io" where
  "store_op E p ev f w =
     (case fault E p of
        Some m \<Rightarrow> (Inl (Error m), emit ev w)
      | None \<Rightarrow> f (emit ev w))"

subsection \<open>The blob store client\<close>

definition upsert :: "string \<Rightarrow> bytes \<Rightarrow> (string \<times> bytes) list \<Rightarrow> (string \<times> bytes) list" where
  "upsert k v objs = (if k \<in> set (map fst objs)
      then map (\<lambda>(k', v'). if k' = k then (k', v) else (k', v')) objs
      else objs @ [(k, v)])"

definition s3_putObject :: "env \<Rightarrow> string \<Rightarrow> bytes \<Rightarrow> unit io" where
  "s3_putObject E key body =
     store_op E OpPutObject (S3PutObject key) (\<lambda>w. (Inr (), w\<lparr>s3 := upsert key body (s3 w)\<rparr>))"

definition s3_getObject :: "env \<Rightarrow> string \<Rightarrow> bytes io" where
  "s3_getObject E key =
     store_op E OpGetObject (S3GetObject key)
       (\<lambda>w. case map_of (s3 w) key of
               None \<Rightarrow> (Inl (Error ''The specified key does not exist.''), w)
             | Some body \<Rightarrow> (Inr body, w))"

definition startsWith :: "string \<Rightarrow> string \<Rightarrow> bool" where
  "startsWith s p = (take (length p) s = p)"

text \<open>One listing returns at most 1000 keys, in key order.\<close>

definition MaxKeys :: nat where
  "MaxKeys = 1000"

definition keysUnder :: "string \<Rightarrow> world \<Rightarrow> string list" where
  "keysUnder pfx w = sort (remdups (filter (\<lambda>k. startsWith k pfx) (map fst (s3 w))))"

definition s3_listObjectsV2 :: "env \<Rightarrow> string \<Rightarrow> string list io" where
  "s3_listObjectsV2 E pfx =
     store_op E OpListObjects (S3ListObjects pfx) (\<lambda>w. (Inr (take MaxKeys (keysUnder pfx w)), w))"

definition s3_deleteObjects :: "env \<Rightarrow> string list \<Rightarrow> unit io" where
  "s3_deleteObjects E keys =
     store_op E OpDeleteObjects (S3DeleteObjects keys)
       (\<lambda>w. (Inr (), w\<lparr>s3 := filter (\<lambda>(k, v). k \<notin> set keys) (s3 w)\<rparr>))"

subsection \<open>The relational store\<close>

text \<open>
  Modelled from the spec: the queries \<^verbatim>\<open>packageExistsQuery\<close>, \<^verbatim>\<open>insertPackageQuery\<close>,
  \<^verbatim>\<open>insertIntoMetadataQuery\<close>, \<^verbatim>\<open>insertIntoPackageDataQuery\<close> and the reset procedure
  \<^verbatim>\<open>executeSqlFile\<close>, which the service calls and the sources at hand do not hold.
  \<open>Exists(id)\<close> is a single read of the Package rows; each insert adds one row to its
  table, the Package row with a generated key larger than every key of the table; the
  reset empties every table, and one that fails may have run in part.
\<close>

definition nextId :: "package_row list \<Rightarrow> int" where
  "nextId rows = foldr (\<lambda>r m. max (pk_rowid r) m) rows 0 + 1"

definition packageExistsQuery :: "env \<Rightarrow> string \<Rightarrow> bool io" where
  "packageExistsQuery E packageId =
     store_op E OpPackageExists (DbPackageExists packageId)
       (\<lambda>w. (Inr (list_ex (\<lambda>r. pk_id r = packageId) (packages w)), w))"

definition insertPackageQuery :: "env \<Rightarrow> string option \<Rightarrow> string \<Rightarrow> string \<Rightarrow> bool \<Rightarrow> unit io" where
  "insertPackageQuery E nm ver packageId contentType =
     store_op E OpInsertPackage (DbInsertPackage packageId)
       (\<lambda>w. (Inr (), w\<lparr>packages := packages w @
          [\<lparr>pk_rowid = nextId (packages w), pk_name = nm, pk_version = ver, pk_id = packageId,
            pk_content_type = contentType\<rparr>]\<rparr>))"

definition insertIntoMetadataQuery :: "env \<Rightarrow> string option \<Rightarrow> string \<Rightarrow> string \<Rightarrow> unit io" where
  "insertIntoMetadataQuery E nm ver packageId =
     store_op E OpInsertMetadata (DbInsertMetadata packageId)
       (\<lambda>w. (Inr (), w\<lparr>package_metadata := package_metadata w @ [(nm, ver, packageId)]\<rparr>))"

definition insertIntoPackageDataQuery ::
  "env \<Rightarrow> string \<Rightarrow> bool \<Rightarrow> string option \<Rightarrow> bool \<Rightarrow> string option \<Rightarrow> unit io" where
  "insertIntoPackageDataQuery E packageId contentType url debloatVal js =
     store_op E OpInsertPackageData (DbInsertPackageData packageId)
       (\<lambda>w. (Inr (), w\<lparr>package_data := package_data w @
          [\<lparr>pd_id = packageId, pd_content_type = contentType, pd_url = url,
            pd_debloat = debloatVal, pd_js_program = js\<rparr>]\<rparr>))"

definition tablesOf :: "world \<Rightarrow> tables" where
  "tablesOf w = (packages w, package_metadata w, package_data w)"

definition withTables :: "tables \<Rightarrow> world \<Rightarrow> world" where
  "withTables t w =
     (case t of (p, pm, pd) \<Rightarrow> w\<lparr>packages := p, package_metadata := pm, package_data := pd\<rparr>)"

definition executeSqlFile :: "env \<Rightarrow> unit io" where
  "executeSqlFile E w =
     (let w1 = emit DbExecuteSqlFile w in
      case fault E OpExecuteSqlFile of
        Some m \<Rightarrow> (Inl (Error m), withTables (failedReset E (tablesOf w1)) w1)
      | None \<Rightarrow> (Inr (), withTables ([], [], []) w1))"

section \<open>Ingestion: \<^verbatim>\<open>packageCreate\<close>\<close>

record req_metadata =
  m_Version :: "string option"
  m_ID :: "string option"
  m_Name :: "string option"

record resp_metadata =
  r_Name :: "string option"
  r_Version :: "string option"
  r_ID :: string

record resp_data =
  r_Content :: "string option"
  r_JSProgram :: "string option"

record package_response =
  r_metadata :: resp_metadata
  r_data :: resp_data

text \<open>The string of a value that a truthiness test has just accepted.\<close>

definition str :: "string option \<Rightarrow> string" where
  "str v = (case v of None \<Rightarrow> [] | Some s \<Rightarrow> s)"

text \<open>
  \<^verbatim>\<open>URL.match(/github\.com\/([^/]+)\/([^/]+)(?:\/blob\/([^/]+)\/(.+))?/)\<close>, of which the
  service reads groups 1 and 2: the leftmost place where \<^verbatim>\<open>github.com/\<close> is followed by
  a non-empty run without a slash, a slash, and another such run. Both runs are greedy
  and the optional group cannot make the match fail.
\<close>

definition no_slash :: "char \<Rightarrow> bool" where
  "no_slash c = (c \<noteq> CHR ''/'')"

definition match_here :: "string \<Rightarrow> (string \<times> string) option" where
  "match_here s =
     (if startsWith s ''github.com/'' then
        (let r1 = drop 11 s; owner = takeWhile no_slash r1 in
         if owner = [] then None
         else (case dropWhile no_slash r1 of
                 [] \<Rightarrow> None
               | c # r2 \<Rightarrow> (let repo = takeWhile no_slash r2 in
                             if repo = [] then None else Some (owner, repo))))
      else None)"

fun repoMatch :: "string \<Rightarrow> (string \<times> string) option" where
  "repoMatch [] = None"
| "repoMatch (c # cs) =
     (case match_here (c # cs) of Some g \<Rightarrow> Some g | None \<Rightarrow> repoMatch cs)"

definition NAMESPACE :: string where
  "NAMESPACE = ''6ba7b810-9dad-11d1-80b4-00c04fd430c8''"

text \<open>\<^verbatim>\<open>uuidv5(`${packageName}-${packageVersion}`, NAMESPACE)\<close>, for a given \<^verbatim>\<open>uuidv5\<close>.\<close>

definition Identity :: "(string \<Rightarrow> string \<Rightarrow> string) \<Rightarrow> string option \<Rightarrow> string option \<Rightarrow> string" where
  "Identity h packageName packageVersion = h (tmpl packageName @ ''-'' @ tmpl packageVersion) NAMESPACE"

text \<open>\<^verbatim>\<open>`packages/${packageName}/v${packageVersion}/package.zip`\<close>\<close>

definition s3Key :: "string option \<Rightarrow> string option \<Rightarrow> string" where
  "s3Key packageName packageVersion =
     ''packages/'' @ tmpl packageName @ ''/v'' @ tmpl packageVersion @ ''/package.zip''"

definition downloadFile :: "env \<Rightarrow> string \<Rightarrow> string io" where
  "downloadFile E url = io_bind (call (HttpGet url) (axios_get E url)) (\<lambda>body. ret (toBase64 body))"

text \<open>
  Lines 351 to 384: where the name, and with it the version, comes from. The result is
  \<open>(packageName, packageVersion, repoOwner, repoName)\<close>.
\<close>

definition resolveName ::
  "env \<Rightarrow> string option \<Rightarrow> string option \<Rightarrow> string option \<Rightarrow> string option \<Rightarrow> string option
     \<Rightarrow> (string option \<times> string option \<times> string option \<times> string option) io" where
  "resolveName E Content URL Name packageName packageVersion =
     (if \<not> truthy packageName \<and> \<not> truthy Name then
        (if truthy URL then
           (case repoMatch (str URL) of
              None \<Rightarrow> throw (CustomError ''Invalid GitHub URL format'' 400)
            | Some (repoOwner, repoName) \<Rightarrow>
                try_catch
                  (io_bind (call (CallGetPackageInfoRepo repoOwner repoName)
                              (getPackageInfoRepo E repoOwner repoName))
                     (\<lambda>responseInfo. ret (Option.bind responseInfo info_name,
                                          Option.bind responseInfo info_version,
                                          Some repoOwner, Some repoName)))
                  (\<lambda>error. throw (CustomError
                     ''Failed to retrieve package info from package json using URL'' 500)))
         else if truthy Content then
           try_catch
             (io_bind (call (CallGetPackageInfoZipFile (str Content))
                         (getPackageInfoZipFile E (str Content)))
                (\<lambda>responseInfo. case responseInfo of
                    None \<Rightarrow> throw (Error ''Cannot read properties of undefined'')
                  | Some i \<Rightarrow> ret (info_name i, info_version i, None, None)))
             (\<lambda>error. throw (CustomError
                ''Failed to retrieve package info from package json'' 500))
         else ret (packageName, packageVersion, None, None))
      else if truthy Name then ret (Some (trim (str Name)), packageVersion, None, None)
      else ret (packageName, packageVersion, None, None))"

text \<open>\<^verbatim>\<open>`https://api.github.com/repos/${repoOwner}/${repoName}/zipball`\<close>\<close>

definition zipballUrl :: "string option \<Rightarrow> string option \<Rightarrow> string" where
  "zipballUrl repoOwner repoName =
     ''https://api.github.com/repos/'' @ tmpl repoOwner @ ''/'' @ tmpl repoName @ ''/zipball''"

text \<open>
  Lines 409 to 459: the archive goes to the blob store. The result is
  \<open>(contentBuffer, returnString)\<close>.
\<close>

definition uploadArchive ::
  "env \<Rightarrow> string option \<Rightarrow> string option \<Rightarrow> string option \<Rightarrow> string option
     \<Rightarrow> string option \<Rightarrow> string option \<Rightarrow> (string option \<times> string option) io" where
  "uploadArchive E Content URL packageName packageVersion repoOwner repoName =
     (if truthy Content \<and> \<not> truthy URL then
        try_catch
          (io_bind (s3_putObject E (s3Key packageName packageVersion) (fromBase64 (str Content)))
             (\<lambda>_. ret (None, Content)))
          (\<lambda>error. throw (CustomError ''Failed to upload content'' 500))
      else if truthy URL \<and> \<not> truthy Content then
        (let apiUrl = zipballUrl repoOwner repoName in
         try_catch
           (io_bind (downloadFile E apiUrl)
              (\<lambda>contentBuffer.
                 io_bind (s3_putObject E (s3Key packageName packageVersion) (fromBase64 contentBuffer))
                   (\<lambda>_. ret (Some contentBuffer, Some (btoa contentBuffer)))))
           (\<lambda>error. throw (CustomError ''Failed to download or upload package from URL'' 500)))
      else ret (None, None))"

text \<open>Lines 461 to 496: the three rows, then the response.\<close>

definition insertRows ::
  "env \<Rightarrow> string option \<Rightarrow> string option \<Rightarrow> bool \<Rightarrow> string option \<Rightarrow> string option
     \<Rightarrow> string \<Rightarrow> string option \<Rightarrow> string option \<Rightarrow> package_response io" where
  "insertRows E JSProgram URL debloatVal packageName packageVersion packageId contentBuffer returnString =
     try_catch
       (io_bind (insertPackageQuery E packageName (nullish packageVersion ''1.0.0'') packageId
                   (\<not> truthy contentBuffer))
          (\<lambda>_. io_bind (insertIntoMetadataQuery E packageName (nullish packageVersion ''1.0.0'') packageId)
          (\<lambda>_. io_bind (insertIntoPackageDataQuery E packageId (\<not> truthy contentBuffer) URL
                          debloatVal JSProgram)
          (\<lambda>_. ret \<lparr>r_metadata = \<lparr>r_Name = packageName, r_Version = packageVersion, r_ID = packageId\<rparr>,
                     r_data = \<lparr>r_Content = returnString, r_JSProgram = JSProgram\<rparr>\<rparr>))))
       (\<lambda>error. throw (CustomError ''Failed to upload package or insert into database'' 500))"

text \<open>
  Lines 332 and 341 to 344: \<^verbatim>\<open>metadata?.Version?.trim()\<close>, replaced by the default when
  it is falsy.
\<close>

definition initialVersion :: "req_metadata option \<Rightarrow> string option" where
  "initialVersion metadata =
     (let packageVersion = opt_trim (Option.bind metadata m_Version) in
      if \<not> truthy packageVersion then Some ''1.0.0'' else packageVersion)"

text \<open>
  Lines 388 to 391: the id of the request is kept only when it is the derived one, so
  the result is the derived id in every case.
\<close>

definition derivePackageId :: "env \<Rightarrow> string option \<Rightarrow> string option \<Rightarrow> string option \<Rightarrow> string" where
  "derivePackageId E packageId packageName packageVersion =
     (if \<not> truthy packageId \<or> str packageId \<noteq> Identity (uuidv5 E) packageName packageVersion
      then Identity (uuidv5 E) packageName packageVersion
      else str packageId)"

text \<open>
  \<^verbatim>\<open>packageCreate(Content, JSProgram, URL, debloat, Name, metadata, xAuthorization)\<close>;
  the token is only logged.
\<close>

definition packageCreate ::
  "env \<Rightarrow> string option \<Rightarrow> string option \<Rightarrow> string option \<Rightarrow> bool option \<Rightarrow> string option
     \<Rightarrow> req_metadata option \<Rightarrow> package_response io" where
  "packageCreate E Content JSProgram URL debloat Name metadata =
     (let packageName0 = opt_trim (Option.bind metadata m_Name);
          packageVersion0 = initialVersion metadata;
          packageId0 = opt_trim (Option.bind metadata m_ID);
          debloatVal = nullish debloat False
      in
      if (\<not> truthy URL \<and> \<not> truthy Content) \<or> (truthy URL \<and> truthy Content) then
        throw (CustomError ''Invalid request body. 'Content' or 'URL' (exclusively) is required.'' 400)
      else
        io_bind (resolveName E Content URL Name packageName0 packageVersion0)
          (\<lambda>(packageName, packageVersion, repoOwner, repoName).
             let packageId = derivePackageId E packageId0 packageName packageVersion in
             if \<not> truthy (bucketName E) then
               throw (CustomError ''S3_BUCKET_NAME is not defined in the environment variables.'' 500)
             else
               io_bind (packageExistsQuery E packageId)
                 (\<lambda>exists.
                    if exists then throw (CustomError ''Package already exists.'' 409)
                    else
                      io_bind (uploadArchive E Content URL packageName packageVersion repoOwner repoName)
                        (\<lambda>(contentBuffer, returnString).
                           insertRows E JSProgram URL debloatVal packageName packageVersion
                             packageId contentBuffer returnString))))"

section \<open>Retrieval: \<^verbatim>\<open>packageRetrieve\<close>\<close>

text \<open>
  The query of lines 673 to 679: the Package rows joined with their origin rows on the
  package id, restricted to the requested id. The driver returns the column aliases in
  lower case, which is how the service reads them.
\<close>

definition selectPackage :: "env \<Rightarrow> string \<Rightarrow> (package_row \<times> package_data_row) list io" where
  "selectPackage E pid =
     store_op E OpSelectPackage (DbSelectPackage pid)
       (\<lambda>w. (Inr [(p, pd). p \<leftarrow> packages w, pd \<leftarrow> package_data w, pk_id p = pd_id pd, pk_id p = pid], w))"

text \<open>\<^verbatim>\<open>`packages/${metadata.packageid}/v${metadata.packageversion}/package.zip`\<close>, line 697.\<close>

definition retrieveKey :: "package_row \<Rightarrow> string" where
  "retrieveKey p = ''packages/'' @ pk_id p @ ''/v'' @ pk_version p @ ''/package.zip''"

definition packageRetrieve :: "env \<Rightarrow> string \<Rightarrow> package_response io" where
  "packageRetrieve E pid =
     (if \<not> truthy (bucketName E) then
        throw (CustomError ''S3_BUCKET_NAME is not defined in the environment variables.'' 500)
      else
        try_catch
          (io_bind (selectPackage E pid)
             (\<lambda>rows. case rows of
                [] \<Rightarrow> throw (CustomError ''Package not found.'' 404)
              | (p, pd) # _ \<Rightarrow>
                  io_bind (s3_getObject E (retrieveKey p))
                    (\<lambda>body.
                       let content = toBase64 body in
                       if content = [] then throw (CustomError ''Package content not found in S3.'' 404)
                       else ret \<lparr>r_metadata = \<lparr>r_Name = pk_name p, r_Version = Some (pk_version p),
                                                r_ID = pk_id p\<rparr>,
                                  r_data = \<lparr>r_Content = Some content, r_JSProgram = pd_js_program pd\<rparr>\<rparr>)))
          (\<lambda>error. throw (CustomError (''Failed to retrieve package: '' @ message error) 500)))"

section \<open>The query engine: \<^verbatim>\<open>packagesList\<close>\<close>

record PackageQuery =
  q_Version :: "string option"
  q_ID :: "string option"
  q_Name :: "string option"

subsection \<open>The four version patterns\<close>

text \<open>
  Each pattern is a sequence of \<^verbatim>\<open>\d+\<close> and single characters between \<^verbatim>\<open>^\<close> and
  \<^verbatim>\<open>$\<close>. A run of digits is always followed by a character that is not a digit or by
  the end, so reading every run greedily decides the match. A reader returns the rest of
  the input, or \<open>None\<close> when it does not match.
\<close>

definition digits1 :: "string \<Rightarrow> string option" where
  "digits1 s = (if takeWhile is_digit s = [] then None else Some (dropWhile is_digit s))"

definition lit :: "char \<Rightarrow> string \<Rightarrow> string option" where
  "lit c s = (case s of [] \<Rightarrow> None | x # r \<Rightarrow> if x = c then Some r else None)"

text \<open>\<^verbatim>\<open>\d+\.\d+\.\d+\<close>\<close>

definition xyz :: "string \<Rightarrow> string option" where
  "xyz s = Option.bind (digits1 s) (\<lambda>r1. Option.bind (lit CHR ''.'' r1) (\<lambda>r2.
             Option.bind (digits1 r2) (\<lambda>r3. Option.bind (lit CHR ''.'' r3) digits1)))"

definition at_end :: "string option \<Rightarrow> bool" where
  "at_end r = (r = Some [])"

text \<open>\<^verbatim>\<open>/^\d+\.\d+\.\d+$/\<close>\<close>

definition re_exact :: "string \<Rightarrow> bool" where
  "re_exact s = at_end (xyz s)"

text \<open>\<^verbatim>\<open>/^\d+\.\d+\.\d+-\d+\.\d+\.\d+$/\<close>\<close>

definition re_range :: "string \<Rightarrow> bool" where
  "re_range s = at_end (Option.bind (xyz s) (\<lambda>r. Option.bind (lit CHR ''-'' r) xyz))"

text \<open>\<^verbatim>\<open>/^\^\d+\.\d+\.\d+$/\<close>\<close>

definition re_caret :: "string \<Rightarrow> bool" where
  "re_caret s = at_end (Option.bind (lit CHR ''^'' s) xyz)"

text \<open>\<^verbatim>\<open>/^~\d+\.\d+\.\d+$/\<close>\<close>

definition re_tilde :: "string \<Rightarrow> bool" where
  "re_tilde s = at_end (Option.bind (lit CHR ''~'' s) xyz)"

definition versionFormats :: "(string \<Rightarrow> bool) list" where
  "versionFormats = [re_exact, re_range, re_caret, re_tilde]"

subsection \<open>Conditions\<close>

text \<open>
  A condition of the WHERE clause with its parameter in place of the placeholder
  \<^verbatim>\<open>$n\<close>. The entries of one filter are joined by AND, the filters by OR.
\<close>

datatype cond =
    NameEq string
  | IdEq string
  | VersionEq string
  | VersionBetween "string option" "string option"
  | VersionLike string

text \<open>\<^verbatim>\<open>s.split(c)\<close>\<close>

fun split :: "char \<Rightarrow> string \<Rightarrow> string list" where
  "split c [] = [[]]"
| "split c (x # xs) =
     (if x = c then [] # split c xs
      else (case split c xs of [] \<Rightarrow> [[x]] | p # ps \<Rightarrow> (x # p) # ps))"

text \<open>An element of a destructured array: \<^verbatim>\<open>undefined\<close> past the end.\<close>

definition item :: "'a list \<Rightarrow> nat \<Rightarrow> 'a option" where
  "item xs i = (if i < length xs then Some (xs ! i) else None)"

text \<open>Lines 792 to 868: one turn of the loop, the conditions of one filter entry.\<close>

definition entryConditions :: "PackageQuery \<Rightarrow> js_error + cond list" where
  "entryConditions pkgQuery =
     (if truthy (q_Version pkgQuery)
         \<and> length (filter (\<lambda>regex. regex (str (q_Version pkgQuery))) versionFormats) \<noteq> 1
      then Inl (CustomError (''Invalid or ambiguous version format: '' @ str (q_Version pkgQuery)) 400)
      else
        (let c1 = (if truthy (q_Name pkgQuery) then [NameEq (str (q_Name pkgQuery))] else []);
             c2 = c1 @ (if truthy (q_ID pkgQuery) then [IdEq (str (q_ID pkgQuery))] else [])
         in
         if truthy (q_Version pkgQuery) then
           (let version = trim (str (q_Version pkgQuery)) in
            if re_exact version then Inr (c2 @ [VersionEq version])
            else if re_range version then
              Inr (c2 @ [VersionBetween (item (split CHR ''-'' version) 0) (item (split CHR ''-'' version) 1)])
            else if re_caret version then
              Inr (c2 @ [VersionLike (tmpl (item (split CHR ''.'' (drop 1 version)) 0) @ ''.%'')])
            else if re_tilde version then
              Inr (c2 @ [VersionLike (tmpl (item (split CHR ''.'' (drop 1 version)) 0) @ ''.''
                                       @ tmpl (item (split CHR ''.'' (drop 1 version)) 1) @ ''.%'')])
            else Inl (CustomError (''Invalid version format: '' @ version) 400))
         else Inr c2))"

text \<open>The loop over the filter entries; \<open>packageConditions\<close> is the accumulator.\<close>

fun collectConditions :: "PackageQuery list \<Rightarrow> cond list list \<Rightarrow> js_error + cond list list" where
  "collectConditions [] packageConditions = Inr packageConditions"
| "collectConditions (pkgQuery # rest) packageConditions =
     (case entryConditions pkgQuery of
        Inl e \<Rightarrow> Inl e
      | Inr conditions \<Rightarrow>
          collectConditions rest
            (if conditions \<noteq> [] then packageConditions @ [conditions] else packageConditions))"

text \<open>Lines 779 to 875: the WHERE clauses of the query, at most one.\<close>

definition whereClauses :: "PackageQuery list \<Rightarrow> js_error + cond list list list" where
  "whereClauses body =
     (if body \<noteq> [] then
        (if length body = 1 \<and> q_Name (hd body) = Some ''*'' then Inr []
         else (case collectConditions body [] of
                 Inl e \<Rightarrow> Inl e
               | Inr packageConditions \<Rightarrow>
                   Inr (if packageConditions \<noteq> [] then [packageConditions] else [])))
      else Inr [])"

subsection \<open>The paginated read\<close>

text \<open>\<^verbatim>\<open>LIKE\<close>: \<^verbatim>\<open>%\<close> stands for any run of characters, \<^verbatim>\<open>_\<close> for any one.\<close>

fun like :: "string \<Rightarrow> string \<Rightarrow> bool" where
  "like [] s = (s = [])"
| "like (p # ps) [] = (p = CHR ''%'' \<and> like ps [])"
| "like (p # ps) (c # cs) =
     (if p = CHR ''%'' then like ps (c # cs) \<or> like (p # ps) cs
      else (p = CHR ''_'' \<or> p = c) \<and> like ps cs)"

text \<open>
  A condition on a row. \<^verbatim>\<open>id = $n\<close> compares the numeric key of the row with the integer
  that the store reads in the parameter.
\<close>

fun holds :: "env \<Rightarrow> cond \<Rightarrow> package_row \<Rightarrow> bool" where
  "holds E (NameEq v) r = (pk_name r = Some v)"
| "holds E (IdEq v) r = (readId E v = Some (pk_rowid r))"
| "holds E (VersionEq v) r = (pk_version r = v)"
| "holds E (VersionBetween (Some a) (Some b)) r = (a \<le> pk_version r \<and> pk_version r \<le> b)"
| "holds E (VersionBetween _ _) r = False"
| "holds E (VersionLike p) r = like p (pk_version r)"

text \<open>A condition whose parameter the store refuses, and a query that has one.\<close>

fun unreadable :: "env \<Rightarrow> cond \<Rightarrow> bool" where
  "unreadable E (IdEq v) = (readId E v = None)"
| "unreadable E _ = False"

definition refused :: "env \<Rightarrow> cond list list list \<Rightarrow> bool" where
  "refused E conditions = list_ex (list_ex (list_ex (unreadable E))) conditions"

definition matches :: "env \<Rightarrow> cond list list list \<Rightarrow> package_row \<Rightarrow> bool" where
  "matches E conditions r =
     list_all (\<lambda>clause. list_ex (\<lambda>conj. list_all (\<lambda>c. holds E c r) conj) clause) conditions"

text \<open>
  \<^verbatim>\<open>getPackages(conditions, queryParams, limit, offset)\<close>: the rows that satisfy every
  clause, ordered by the column \<^verbatim>\<open>id\<close>, \<open>limit\<close> of them from \<open>offset\<close> on. The store
  refuses a query with a parameter it cannot read, and an offset that is not a number,
  is negative or is not a 64-bit integer.
\<close>

definition matching :: "env \<Rightarrow> cond list list list \<Rightarrow> world \<Rightarrow> package_row list" where
  "matching E conditions w = sort_key pk_rowid (filter (matches E conditions) (packages w))"

definition getPackages :: "env \<Rightarrow> cond list list list \<Rightarrow> nat \<Rightarrow> js_number \<Rightarrow> package_row list io" where
  "getPackages E conditions limit offset =
     store_op E OpGetPackages DbGetPackages
       (\<lambda>w. if refused E conditions then (Inl (Error ''invalid input syntax for type integer''), w)
            else (case offset of
               Num k \<Rightarrow>
                 if k < 0 then (Inl (Error ''OFFSET must not be negative''), w)
                 else if 2 ^ 63 \<le> k then (Inl (Error ''value out of range for type bigint''), w)
                 else (Inr (take limit (drop (nat k) (matching E conditions w))), w)
             | NaN \<Rightarrow> (Inl (Error ''invalid input syntax for type bigint''), w)
             | PosInf \<Rightarrow> (Inl (Error ''invalid input syntax for type bigint''), w)
             | NegInf \<Rightarrow> (Inl (Error ''invalid input syntax for type bigint''), w)))"

record PackagesListResponse =
  l_packages :: "package_row list"
  l_nextOffset :: "js_number option"

text \<open>\<^verbatim>\<open>x + n\<close> for an integer \<open>n\<close>: the double nearest to the sum.\<close>

fun plus_num :: "js_number \<Rightarrow> int \<Rightarrow> js_number" where
  "plus_num (Num a) b = toDouble (a + b)"
| "plus_num NaN b = NaN"
| "plus_num PosInf b = PosInf"
| "plus_num NegInf b = NegInf"

definition limit :: nat where
  "limit = 10"

text \<open>\<^verbatim>\<open>offset ? parseInt(offset, 10) : 0\<close>\<close>

definition offsetValue :: "string option \<Rightarrow> js_number" where
  "offsetValue offset = (if truthy offset then parseInt (str offset) else Num 0)"

definition packagesList :: "env \<Rightarrow> PackageQuery list \<Rightarrow> string option \<Rightarrow> PackagesListResponse io" where
  "packagesList E body offset =
     try_catch
       (case whereClauses body of
          Inl e \<Rightarrow> throw e
        | Inr clauses \<Rightarrow>
            io_bind (getPackages E clauses limit (offsetValue offset))
              (\<lambda>pkgs. ret \<lparr>l_packages = pkgs,
                            l_nextOffset = (if length pkgs = limit
                                            then Some (plus_num (offsetValue offset) (int limit))
                                            else None)\<rparr>))
       (\<lambda>error. case error of
                   CustomError m c \<Rightarrow> throw error
                 | Error m \<Rightarrow> throw (CustomError ''An unexpected error occurred.'' 500))"

section \<open>Reset: \<^verbatim>\<open>registryReset\<close>\<close>

definition registryReset :: "env \<Rightarrow> unit io" where
  "registryReset E =
     (if \<not> truthy (bucketName E) then
        throw (Error ''S3_BUCKET_NAME is not defined in the environment variables.'')
      else
        try_catch
          (io_bind (s3_listObjectsV2 E ''packages/'')
             (\<lambda>Contents.
                io_bind (if Contents \<noteq> [] then s3_deleteObjects E Contents else ret ())
                  (\<lambda>_. executeSqlFile E)))
          (\<lambda>error. throw (Error (''Failed to reset registry: '' @ message error))))"

section \<open>A concrete registry\<close>

text \<open>
  For the statements at concrete inputs: a configured service whose stores answer, with
  an injective stand-in for \<^verbatim>\<open>uuidv5\<close>, package-json readers that report version
  9.9.9, a store that reads a run of digits as an id and that a failed reset leaves as
  it was; and the empty registry.
\<close>

definition uuid_standin :: "string \<Rightarrow> string \<Rightarrow> string" where
  "uuid_standin nm ns = ns @ '':'' @ nm"

definition env0 :: env where
  "env0 = \<lparr>bucketName = Some ''registry-bucket'',
           uuidv5 = uuid_standin,
           getPackageInfoRepo = (\<lambda>owner repo. Inr (Some \<lparr>info_name = Some repo, info_version = Some ''9.9.9''\<rparr>)),
           getPackageInfoZipFile = (\<lambda>content. Inr (Some \<lparr>info_name = Some ''pkg'', info_version = Some ''9.9.9''\<rparr>)),
           axios_get = (\<lambda>url. Inr ''PK''),
           fault = (\<lambda>p. None),
           readId = (\<lambda>v. if v \<noteq> [] \<and> list_all is_digit v then Some (decimal v) else None),
           failedReset = (\<lambda>t. t)\<rparr>"

definition world0 :: world where
  "world0 = \<lparr>s3 = [], packages = [], package_metadata = [], package_data = [], trace = []\<rparr>"

text \<open>The registry after the inline archive \<open>UEsDBA==\<close> was published as \<open>X\<close>, and the response.\<close>

definition respX :: package_response where
  "respX = \<lparr>r_metadata = \<lparr>r_Name = Some ''X'', r_Version = Some ''1.0.0'',
                            r_ID = ''6ba7b810-9dad-11d1-80b4-00c04fd430c8:X-1.0.0''\<rparr>,
            r_data = \<lparr>r_Content = Some ''UEsDBA=='', r_JSProgram = None\<rparr>\<rparr>"

definition worldX :: world where
  "worldX =
     \<lparr>s3 = [(''packages/X/v1.0.0/package.zip'', [CHR ''P'', CHR ''K'', CHR 0x03, CHR 0x04])],
      packages = [\<lparr>pk_rowid = 1, pk_name = Some ''X'', pk_version = ''1.0.0'',
                   pk_id = ''6ba7b810-9dad-11d1-80b4-00c04fd430c8:X-1.0.0'', pk_content_type = True\<rparr>],
      package_metadata = [(Some ''X'', ''1.0.0'', ''6ba7b810-9dad-11d1-80b4-00c04fd430c8:X-1.0.0'')],
      package_data = [\<lparr>pd_id = ''6ba7b810-9dad-11d1-80b4-00c04fd430c8:X-1.0.0'',
                       pd_content_type = True, pd_url = None, pd_debloat = False, pd_js_program = None\<rparr>],
      trace = [DbPackageExists ''6ba7b810-9dad-11d1-80b4-00c04fd430c8:X-1.0.0'',
               S3PutObject ''packages/X/v1.0.0/package.zip'',
               DbInsertPackage ''6ba7b810-9dad-11d1-80b4-00c04fd430c8:X-1.0.0'',
               DbInsertMetadata ''6ba7b810-9dad-11d1-80b4-00c04fd430c8:X-1.0.0'',
               DbInsertPackageData ''6ba7b810-9dad-11d1-80b4-00c04fd430c8:X-1.0.0'']\<rparr>"

text \<open>
  The registry after \<open>https://github.com/lodash/lodash\<close> was ingested on the empty
  registry, and the response.
\<close>

definition respU :: package_response where
  "respU = \<lparr>r_metadata = \<lparr>r_Name = Some ''lodash'', r_Version = Some ''9.9.9'',
                            r_ID = ''6ba7b810-9dad-11d1-80b4-00c04fd430c8:lodash-9.9.9''\<rparr>,
            r_data = \<lparr>r_Content = Some ''VUVzPQ=='', r_JSProgram = None\<rparr>\<rparr>"

definition worldU :: world where
  "worldU =
     \<lparr>s3 = [(''packages/lodash/v9.9.9/package.zip'', ''PK'')],
      packages = [\<lparr>pk_rowid = 1, pk_name = Some ''lodash'', pk_version = ''9.9.9'',
                   pk_id = ''6ba7b810-9dad-11d1-80b4-00c04fd430c8:lodash-9.9.9'',
                   pk_content_type = False\<rparr>],
      package_metadata = [(Some ''lodash'', ''9.9.9'', ''6ba7b810-9dad-11d1-80b4-00c04fd430c8:lodash-9.9.9'')],
      package_data = [\<lparr>pd_id = ''6ba7b810-9dad-11d1-80b4-00c04fd430c8:lodash-9.9.9'',
                       pd_content_type = False, pd_url = Some ''https://github.com/lodash/lodash'',
                       pd_debloat = False, pd_js_program = None\<rparr>],
      trace = [CallGetPackageInfoRepo ''lodash'' ''lodash'',
               DbPackageExists ''6ba7b810-9dad-11d1-80b4-00c04fd430c8:lodash-9.9.9'',
               HttpGet ''https://api.github.com/repos/lodash/lodash/zipball'',
               S3PutObject ''packages/lodash/v9.9.9/package.zip'',
               DbInsertPackage ''6ba7b810-9dad-11d1-80b4-00c04fd430c8:lodash-9.9.9'',
               DbInsertMetadata ''6ba7b810-9dad-11d1-80b4-00c04fd430c8:lodash-9.9.9'',
               DbInsertPackageData ''6ba7b810-9dad-11d1-80b4-00c04fd430c8:lodash-9.9.9'']\<rparr>"

text \<open>A registry of ten packages, \<open>p0\<close> to \<open>p9\<close> in store order.\<close>

definition row10 :: "nat \<Rightarrow> package_row" where
  "row10 i = \<lparr>pk_rowid = int i + 1, pk_name = Some (''p'' @ [char_of (48 + i)]), pk_version = ''1.0.0'',
              pk_id = NAMESPACE @ '':p'' @ [char_of (48 + i)] @ ''-1.0.0'', pk_content_type = True\<rparr>"

text \<open>The service when the relational store refuses the reset.\<close>

definition envDbDown :: env where
  "envDbDown = env0\<lparr>fault := (\<lambda>p. if p = OpExecuteSqlFile then Some ''connection refused'' else None)\<rparr>"

definition world10 :: world where
  "world10 = world0\<lparr>packages := map row10 [0..<10]\<rparr>"

section \<open>Auxiliary notions\<close>

text \<open>The characters that a string of one of the four version forms is made of.\<close>

definition plain :: "char \<Rightarrow> bool" where
  "plain c = (is_digit c \<or> c = CHR ''.'' \<or> c = CHR ''-'' \<or> c = CHR ''^'' \<or> c = CHR ''~'')"

text \<open>
  The registry when phase 1 of the reset is over: the listing is recorded, and when it
  returned keys, so is their deletion, and the objects are gone.
\<close>

definition afterPhase1 :: "world \<Rightarrow> world" where
  "afterPhase1 w =
     (let ks = take MaxKeys (keysUnder ''packages/'' w) in
      if ks \<noteq> [] then
        (emit (S3DeleteObjects ks) (emit (S3ListObjects ''packages/'') w))
          \<lparr>s3 := filter (\<lambda>(k, v). k \<notin> set ks) (s3 w)\<rparr>
      else emit (S3ListObjects ''packages/'') w)"

text \<open>A bucket of 1001 objects under \<open>packages/\<close>.\<close>

definition world1001 :: world where
  "world1001 = world0\<lparr>s3 := map (\<lambda>i. (''packages/'' @ replicate i CHR ''a'', [])) [0..<1001]\<rparr>"

section \<open>Properties\<close>

lemmas io_defs = ret_def throw_def io_bind_def try_catch_def emit_def call_def store_op_def

subsection \<open>Base64 round trip\<close>

lemma of_char_b64_digit:
  "n < 64 \<Longrightarrow> (of_char (b64_digit n) :: nat) =
     (if n < 26 then 65 + n else if n < 52 then 71 + n else if n < 62 then n - 4
      else if n = 62 then 43 else 47)"
  by (simp add: b64_digit_def)

lemma b64_value_digit: "n < 64 \<Longrightarrow> b64_value (b64_digit n) = Some n"
proof -
  assume n: "n < 64"
  consider "n < 26" | "26 \<le> n" "n < 52" | "52 \<le> n" "n < 62" | "n = 62" | "n = 63"
    using n by linarith
  then show ?thesis
  proof cases
    case 1
    then show ?thesis by (auto simp: b64_value_def Let_def of_char_b64_digit)
  next
    case 2
    then show ?thesis by (auto simp: b64_value_def Let_def of_char_b64_digit)
  next
    case 3
    then show ?thesis by (auto simp: b64_value_def Let_def of_char_b64_digit)
  next
    case 4
    then show ?thesis by (simp add: b64_value_def Let_def b64_digit_def)
  next
    case 5
    then show ?thesis by (simp add: b64_value_def Let_def b64_digit_def)
  qed
qed

lemma b64_digit_not_pad: "n < 64 \<Longrightarrow> b64_digit n \<noteq> CHR ''=''"
proof
  assume n: "n < 64" and "b64_digit n = CHR ''=''"
  then have "(of_char (b64_digit n) :: nat) = 61" by simp
  with n show False by (simp add: of_char_b64_digit split: if_splits)
qed

lemma div16_small: "(b::nat) < 256 \<Longrightarrow> b div 16 < 16"
  by (rule less_mult_imp_div_less) simp

lemma div64_small: "(c::nat) < 256 \<Longrightarrow> c div 64 < 4"
  by (rule less_mult_imp_div_less) simp

lemma div4_small: "(a::nat) < 256 \<Longrightarrow> a div 4 < 64"
  by (rule less_mult_imp_div_less) simp

lemma sextet2: "(b::nat) < 256 \<Longrightarrow> (a mod 4) * 16 + b div 16 < 64"
proof -
  assume "b < 256"
  then have "b div 16 < 16" by (rule div16_small)
  moreover have "a mod 4 < 4" by simp
  ultimately show ?thesis by linarith
qed

lemma sextet3: "(c::nat) < 256 \<Longrightarrow> (b mod 16) * 4 + c div 64 < 64"
proof -
  assume "c < 256"
  then have "c div 64 < 4" by (rule div64_small)
  moreover have "b mod 16 < 16" by simp
  ultimately show ?thesis by linarith
qed

lemma sextet2': "((a::nat) mod 4) * 16 < 64"
proof -
  have "a mod 4 < 4" by simp
  then show ?thesis by linarith
qed

lemma sextet3': "((b::nat) mod 16) * 4 < 64"
proof -
  have "b mod 16 < 16" by simp
  then show ?thesis by linarith
qed

lemma byte1: "(b::nat) < 256 \<Longrightarrow> a div 4 * 4 + ((a mod 4) * 16 + b div 16) div 16 = a"
  using div16_small [of b] by simp

lemma byte2: "(b::nat) < 256 \<Longrightarrow> c < 256 \<Longrightarrow>
    (((a mod 4) * 16 + b div 16) mod 16) * 16 + ((b mod 16) * 4 + c div 64) div 4 = b"
  using div16_small [of b] div64_small [of c] by simp

lemma byte3: "(c::nat) < 256 \<Longrightarrow> (((b mod 16) * 4 + c div 64) mod 4) * 64 + c mod 64 = c"
  using div64_small [of c] by simp

lemma byte1': "(a::nat) div 4 * 4 + ((a mod 4) * 16) div 16 = a"
  by simp

lemma byte2': "(b::nat) < 256 \<Longrightarrow> (((a mod 4) * 16 + b div 16) mod 16) * 16 + ((b mod 16) * 4) div 4 = b"
  using div16_small [of b] by simp

lemma decode_groups:
  "\<forall>n \<in> set ns. n < 256 \<Longrightarrow>
   sextets_bytes (List.map_filter b64_value (takeWhile (\<lambda>c. c \<noteq> CHR ''='') (b64_groups ns))) = ns"
proof (induction ns rule: b64_groups.induct)
  case 1
  then show ?case by (simp add: List.map_filter_simps)
next
  case (2 a)
  then have a: "a < 256" by simp
  show ?case
    using b64_digit_not_pad [OF div4_small [OF a]] b64_digit_not_pad [OF sextet2', of a]
    by (simp add: List.map_filter_simps b64_value_digit [OF div4_small [OF a]]
        b64_value_digit [OF sextet2'])
next
  case (3 a b)
  then have a: "a < 256" and b: "b < 256" by simp_all
  show ?case
    using b64_digit_not_pad [OF div4_small [OF a]] b64_digit_not_pad [OF sextet2 [OF b], of a]
      b64_digit_not_pad [OF sextet3', of b] byte1 [OF b, of a] byte2' [OF b, of a]
    by (simp add: List.map_filter_simps b64_value_digit [OF div4_small [OF a]]
        b64_value_digit [OF sextet2 [OF b]] b64_value_digit [OF sextet3'])
next
  case (4 a b c r)
  then have a: "a < 256" and b: "b < 256" and c: "c < 256" and r: "\<forall>n \<in> set r. n < 256"
    by simp_all
  have s4: "c mod 64 < 64" by simp
  show ?case
    using b64_digit_not_pad [OF div4_small [OF a]] b64_digit_not_pad [OF sextet2 [OF b], of a]
      b64_digit_not_pad [OF sextet3 [OF c], of b] b64_digit_not_pad [OF s4]
      byte1 [OF b, of a] byte2 [OF b c, of a] byte3 [OF c, of b] "4.IH" [OF r]
    by (simp add: List.map_filter_simps b64_value_digit [OF div4_small [OF a]]
        b64_value_digit [OF sextet2 [OF b]] b64_value_digit [OF sextet3 [OF c]]
        b64_value_digit [OF s4])
qed

lemma fromBase64_toBase64: "fromBase64 (toBase64 bs) = bs"
proof -
  have "\<forall>n \<in> set (map of_char bs). n < (256::nat)" by simp
  then show ?thesis
    by (simp add: fromBase64_def toBase64_def decode_groups map_idI)
qed

subsection \<open>The identity\<close>

lemma join_injective:
  assumes "CHR ''-'' \<notin> set n" "CHR ''-'' \<notin> set n'" "n @ ''-'' @ v = n' @ ''-'' @ v'"
  shows "n = n' \<and> v = v'"
proof -
  have tw: "CHR ''-'' \<notin> set xs \<Longrightarrow> takeWhile (\<lambda>c. c \<noteq> CHR ''-'') (xs @ ''-'' @ ys) = xs" for xs ys
    by (induction xs) auto
  have a: "takeWhile (\<lambda>c. c \<noteq> CHR ''-'') (n @ ''-'' @ v) = n"
    using assms(1) by (rule tw)
  have b: "takeWhile (\<lambda>c. c \<noteq> CHR ''-'') (n' @ ''-'' @ v') = n'"
    using assms(2) by (rule tw)
  from a b assms(3) have "n = n'" by simp
  with assms(3) show ?thesis by simp
qed

text \<open>The two names are joined by a hyphen before hashing, so a hyphen in a name can move.\<close>

lemma identity_collision_any_hash:
  "Identity h (Some ''a-b'') (Some ''c'') = Identity h (Some ''a'') (Some ''b-c'')"
  by (simp add: Identity_def tmpl_def)

text \<open>
  C2, as stated, fails: two different pairs with the same id, even under an injective
  \<^verbatim>\<open>uuidv5\<close>.
\<close>

theorem identity_collision:
  "Identity uuid_standin (Some ''a-b'') (Some ''c'') = Identity uuid_standin (Some ''a'') (Some ''b-c'')
   \<and> (''a-b'', ''c'') \<noteq> (''a'', ''b-c'')"
  by (simp add: Identity_def tmpl_def)

text \<open>
  C2, amended. The id is a function of the pair, so equal pairs have equal ids. Two pairs
  whose names hold no hyphen have different ids exactly when they differ, provided
  \<^verbatim>\<open>uuidv5\<close> does not collide on their two joined strings.
\<close>

theorem identity_separates_hyphen_free_names:
  assumes "CHR ''-'' \<notin> set n" and "CHR ''-'' \<notin> set n'"
    and "h (n @ ''-'' @ v) NAMESPACE = h (n' @ ''-'' @ v') NAMESPACE \<longrightarrow> n @ ''-'' @ v = n' @ ''-'' @ v'"
  shows "(Identity h (Some n) (Some v) = Identity h (Some n') (Some v')) = ((n, v) = (n', v'))"
proof
  assume "Identity h (Some n) (Some v) = Identity h (Some n') (Some v')"
  then have "h (n @ ''-'' @ v) NAMESPACE = h (n' @ ''-'' @ v') NAMESPACE"
    by (simp add: Identity_def tmpl_def)
  with assms(3) have "n @ ''-'' @ v = n' @ ''-'' @ v'" by blast
  with join_injective [OF assms(1) assms(2)] show "(n, v) = (n', v')" by simp
next
  assume "(n, v) = (n', v')"
  then show "Identity h (Some n) (Some v) = Identity h (Some n') (Some v')" by simp
qed

theorem identity_separates_hyphen_free_names_witness:
  "CHR ''-'' \<notin> set ''lodash'' \<and>
   Identity uuid_standin (Some ''lodash'') (Some ''1.0.0'') \<noteq> Identity uuid_standin (Some ''lodash'') (Some ''2.0.0'')"
  using identity_separates_hyphen_free_names [where n = "''lodash''" and n' = "''lodash''" and v = "''1.0.0''"
      and v' = "''2.0.0''" and h = uuid_standin]
  by (simp add: uuid_standin_def)

subsection \<open>Ingestion, step by step\<close>

lemma derivePackageId_eq:
  "derivePackageId E packageId packageName packageVersion = Identity (uuidv5 E) packageName packageVersion"
  by (simp add: derivePackageId_def)

lemma map_of_upsert_same: "map_of (upsert k v objs) k = Some v"
proof (cases "k \<in> set (map fst objs)")
  case True
  then show ?thesis
    by (induction objs) (auto simp: upsert_def)
next
  case False
  then show ?thesis
    by (simp add: upsert_def map_of_eq_None_iff [THEN iffD2] map_add_Some_iff)
qed

lemma s3_putObject_Inr:
  assumes "s3_putObject E key body w = (Inr u, w')"
  shows "w' = (emit (S3PutObject key) w)\<lparr>s3 := upsert key body (s3 w)\<rparr>"
  using assms by (auto simp: s3_putObject_def store_op_def emit_def split: option.splits)

lemma uploadArchive_inline:
  assumes "truthy Content" "\<not> truthy URL"
    and "uploadArchive E Content URL packageName packageVersion repoOwner repoName w = (Inr (contentBuffer, returnString), w')"
  shows "contentBuffer = None \<and> returnString = Content
     \<and> w' = (emit (S3PutObject (s3Key packageName packageVersion)) w)
              \<lparr>s3 := upsert (s3Key packageName packageVersion) (fromBase64 (str Content)) (s3 w)\<rparr>"
  using assms
  by (auto simp: uploadArchive_def try_catch_def io_bind_def ret_def throw_def
      split: prod.splits sum.splits dest!: s3_putObject_Inr)

lemma uploadArchive_url:
  assumes "truthy URL" "\<not> truthy Content"
    and "uploadArchive E Content URL packageName packageVersion repoOwner repoName w = (Inr (contentBuffer, returnString), w')"
  shows "\<exists>archive. axios_get E (zipballUrl repoOwner repoName) = Inr archive
     \<and> contentBuffer = Some (toBase64 archive) \<and> returnString = Some (btoa (toBase64 archive))
     \<and> w' = (emit (S3PutObject (s3Key packageName packageVersion)) (emit (HttpGet (zipballUrl repoOwner repoName)) w))
              \<lparr>s3 := upsert (s3Key packageName packageVersion) (fromBase64 (toBase64 archive)) (s3 w)\<rparr>"
  using assms
  by (auto simp: uploadArchive_def downloadFile_def call_def try_catch_def io_bind_def ret_def throw_def Let_def
      emit_def
      split: prod.splits sum.splits dest!: s3_putObject_Inr)

lemma insertRows_Inr:
  assumes "insertRows E JSProgram URL debloatVal packageName packageVersion packageId contentBuffer returnString w = (Inr resp, w')"
  shows "resp = \<lparr>r_metadata = \<lparr>r_Name = packageName, r_Version = packageVersion, r_ID = packageId\<rparr>,
                  r_data = \<lparr>r_Content = returnString, r_JSProgram = JSProgram\<rparr>\<rparr>
     \<and> s3 w' = s3 w
     \<and> packages w' = packages w @ [\<lparr>pk_rowid = nextId (packages w), pk_name = packageName,
                                      pk_version = nullish packageVersion ''1.0.0'',
                                      pk_id = packageId, pk_content_type = (\<not> truthy contentBuffer)\<rparr>]
     \<and> package_metadata w' = package_metadata w @ [(packageName, nullish packageVersion ''1.0.0'', packageId)]
     \<and> package_data w' = package_data w @ [\<lparr>pd_id = packageId, pd_content_type = (\<not> truthy contentBuffer),
                                      pd_url = URL, pd_debloat = debloatVal, pd_js_program = JSProgram\<rparr>]
     \<and> trace w' = trace w @ [DbInsertPackage packageId, DbInsertMetadata packageId, DbInsertPackageData packageId]"
  using assms
  by (auto simp: insertRows_def insertPackageQuery_def insertIntoMetadataQuery_def
      insertIntoPackageDataQuery_def store_op_def emit_def try_catch_def io_bind_def ret_def throw_def
      split: prod.splits sum.splits option.splits)

lemma packageExistsQuery_result:
  "fault E OpPackageExists = None \<Longrightarrow>
   packageExistsQuery E pid w = (Inr (list_ex (\<lambda>r. pk_id r = pid) (packages w)), emit (DbPackageExists pid) w)"
  by (simp add: packageExistsQuery_def store_op_def emit_def)

lemma packageExistsQuery_Inr:
  "packageExistsQuery E pid w = (Inr b, w') \<Longrightarrow>
   b = list_ex (\<lambda>r. pk_id r = pid) (packages w) \<and> w' = emit (DbPackageExists pid) w"
  by (auto simp: packageExistsQuery_def store_op_def emit_def split: option.splits)

lemma packageCreate_Inr:
  assumes "packageCreate E Content JSProgram URL debloat Name metadata w = (Inr resp, w')"
  shows "truthy URL \<noteq> truthy Content \<and> truthy (bucketName E) \<and>
    (\<exists>packageName packageVersion repoOwner repoName w1 contentBuffer returnString w3.
      resolveName E Content URL Name (opt_trim (Option.bind metadata m_Name)) (initialVersion metadata) w
        = (Inr (packageName, packageVersion, repoOwner, repoName), w1)
      \<and> \<not> list_ex (\<lambda>r. pk_id r = Identity (uuidv5 E) packageName packageVersion) (packages w1)
      \<and> uploadArchive E Content URL packageName packageVersion repoOwner repoName
            (emit (DbPackageExists (Identity (uuidv5 E) packageName packageVersion)) w1)
          = (Inr (contentBuffer, returnString), w3)
      \<and> insertRows E JSProgram URL (nullish debloat False) packageName packageVersion
            (Identity (uuidv5 E) packageName packageVersion) contentBuffer returnString w3 = (Inr resp, w'))"
  using assms
  by (auto simp: packageCreate_def Let_def io_bind_def throw_def derivePackageId_eq
      split: if_splits prod.splits sum.splits dest!: packageExistsQuery_Inr)

lemma resolveName_named:
  assumes "truthy packageName \<or> truthy Name"
  shows "resolveName E Content URL Name packageName packageVersion w =
     (Inr (if truthy Name then Some (trim (str Name)) else packageName, packageVersion, None, None), w)"
  using assms by (auto simp: resolveName_def ret_def)

lemma resolveName_stores:
  assumes "resolveName E Content URL Name packageName packageVersion w = (r, w1)"
  shows "s3 w1 = s3 w \<and> packages w1 = packages w \<and> package_metadata w1 = package_metadata w
     \<and> package_data w1 = package_data w
     \<and> (\<exists>evs. trace w1 = trace w @ evs \<and> \<not> list_ex is_store_call evs)"
  using assms
  by (auto simp: resolveName_def try_catch_def io_bind_def ret_def throw_def call_def emit_def
      split: if_splits prod.splits sum.splits option.splits)

lemmas create_defs = packageCreate_def resolveName_def uploadArchive_def insertRows_def
  packageExistsQuery_def s3_putObject_def insertPackageQuery_def insertIntoMetadataQuery_def
  insertIntoPackageDataQuery_def downloadFile_def io_defs truthy_def opt_trim_def
  initialVersion_def nullish_def str_def tmpl_def trim_def is_ws_def derivePackageId_def
  Identity_def NAMESPACE_def s3Key_def zipballUrl_def upsert_def nextId_def Let_def

lemma repoMatch_sample: "repoMatch ''https://github.com/lodash/lodash'' = Some (''lodash'', ''lodash'')"
  by (simp add: match_here_def startsWith_def no_slash_def Let_def)

lemma fromBase64_sample: "fromBase64 ''UEsDBA=='' = [CHR ''P'', CHR ''K'', CHR 0x03, CHR 0x04]"
  by code_simp

lemma toBase64_sample: "toBase64 ''PK'' = ''UEs='' \<and> toBase64 ''UEs='' = ''VUVzPQ=='' \<and> fromBase64 ''UEs='' = ''PK''"
  by code_simp

text \<open>Publishing \<open>X\<close> on the empty registry.\<close>

lemma create_sample:
  "packageCreate env0 (Some ''UEsDBA=='') None None None (Some ''X'') None world0 = (Inr respX, worldX)"
  by (simp add: packageCreate_def resolveName_def uploadArchive_def insertRows_def
        packageExistsQuery_def s3_putObject_def insertPackageQuery_def insertIntoMetadataQuery_def
        insertIntoPackageDataQuery_def io_defs env0_def world0_def truthy_def opt_trim_def
        initialVersion_def nullish_def str_def tmpl_def trim_def is_ws_def derivePackageId_def
        Identity_def uuid_standin_def NAMESPACE_def s3Key_def upsert_def nextId_def
        fromBase64_sample Let_def respX_def worldX_def)

subsection \<open>Validation of the request\<close>

text \<open>
  C7. A request that supplies both \<open>Content\<close> and \<open>URL\<close>, or neither, is rejected
  with the 400 validation error, and nothing has been called by then: the stores and
  the trace are as they were.
\<close>

theorem content_xor_url_required:
  assumes "truthy URL = truthy Content"
  shows "packageCreate E Content JSProgram URL debloat Name metadata w =
           (Inl (CustomError ''Invalid request body. 'Content' or 'URL' (exclusively) is required.'' 400), w)"
  using assms by (simp add: packageCreate_def Let_def throw_def)

theorem content_xor_url_required_witness:
  "truthy (Some ''https://github.com/lodash/lodash'') = truthy (Some ''UEsDBA=='')
   \<and> packageCreate env0 (Some ''UEsDBA=='') None (Some ''https://github.com/lodash/lodash'') None None None world0 =
       (Inl (CustomError ''Invalid request body. 'Content' or 'URL' (exclusively) is required.'' 400), world0)"
  using content_xor_url_required [where URL = "Some ''https://github.com/lodash/lodash''" and Content = "Some ''UEsDBA==''"
      and E = env0 and w = world0 and JSProgram = None and debloat = None and Name = None and metadata = None]
  by (simp add: truthy_def)

subsection \<open>The existence guard\<close>

text \<open>
  C3. The request is valid, its name and version are resolved, the service has its bucket
  and the existence query answers. If a Package row already has the derived id, ingestion
  fails with the 409 "Package already exists." The last call made is the existence query:
  the blob store and the three tables are as before, and the trace has no write that was
  not there before.
\<close>

theorem existing_identity_conflicts_without_writes:
  assumes "truthy URL \<noteq> truthy Content"
    and "resolveName E Content URL Name (opt_trim (Option.bind metadata m_Name)) (initialVersion metadata) w
           = (Inr (packageName, packageVersion, repoOwner, repoName), w1)"
    and "truthy (bucketName E)"
    and "fault E OpPackageExists = None"
    and "list_ex (\<lambda>r. pk_id r = Identity (uuidv5 E) packageName packageVersion) (packages w)"
  shows "packageCreate E Content JSProgram URL debloat Name metadata w =
           (Inl (CustomError ''Package already exists.'' 409),
            emit (DbPackageExists (Identity (uuidv5 E) packageName packageVersion)) w1)
     \<and> s3 w1 = s3 w \<and> packages w1 = packages w \<and> package_metadata w1 = package_metadata w
     \<and> package_data w1 = package_data w
     \<and> filter is_write (trace (emit (DbPackageExists (Identity (uuidv5 E) packageName packageVersion)) w1))
         = filter is_write (trace w)"
proof -
  from resolveName_stores [OF assms(2)] obtain evs where
    st: "s3 w1 = s3 w" "packages w1 = packages w" "package_metadata w1 = package_metadata w"
      "package_data w1 = package_data w" and tr: "trace w1 = trace w @ evs" and ev: "\<not> list_ex is_store_call evs"
    by blast
  have nw: "filter is_write evs = []"
  proof -
    have "is_write e \<Longrightarrow> is_store_call e" for e by (cases e) simp_all
    with ev show ?thesis by (auto simp: list_ex_iff filter_empty_conv)
  qed
  have "packageCreate E Content JSProgram URL debloat Name metadata w =
           (Inl (CustomError ''Package already exists.'' 409),
            emit (DbPackageExists (Identity (uuidv5 E) packageName packageVersion)) w1)"
    using assms(1,3,5) st(2)
    by (auto simp: packageCreate_def Let_def io_bind_def throw_def assms(2) derivePackageId_eq
        packageExistsQuery_result [OF assms(4)])
  then show ?thesis using st tr nw by (simp add: emit_def)
qed

theorem existing_identity_conflicts_without_writes_witness:
  "packageCreate env0 (Some ''UEsDBA=='') None None None (Some ''X'') None worldX =
     (Inl (CustomError ''Package already exists.'' 409),
      emit (DbPackageExists ''6ba7b810-9dad-11d1-80b4-00c04fd430c8:X-1.0.0'') worldX)"
proof -
  have r: "resolveName env0 (Some ''UEsDBA=='') None (Some ''X'') (opt_trim (Option.bind None m_Name))
        (initialVersion None) worldX = (Inr (Some ''X'', Some ''1.0.0'', None, None), worldX)"
    by (simp add: resolveName_named truthy_def str_def trim_def is_ws_def initialVersion_def opt_trim_def)
  have i: "Identity (uuidv5 env0) (Some ''X'') (Some ''1.0.0'') = ''6ba7b810-9dad-11d1-80b4-00c04fd430c8:X-1.0.0''"
    by (simp add: Identity_def env0_def uuid_standin_def NAMESPACE_def tmpl_def)
  show ?thesis
    using existing_identity_conflicts_without_writes [OF _ r, where JSProgram = None and debloat = None]
    by (simp add: i) (simp add: truthy_def env0_def worldX_def)
qed

subsection \<open>The effective version\<close>

text \<open>
  C4, as stated, fails. The request has no name and its metadata asks for version 2.0.0;
  the package json says 9.9.9, and 9.9.9 is the version of the response, of the identity,
  of the blob key and of the row.
\<close>

theorem resolver_version_overrides_metadata:
  "fst (packageCreate env0 (Some ''UEsDBA=='') None None None None
          (Some \<lparr>m_Version = Some ''2.0.0'', m_ID = None, m_Name = None\<rparr>) world0) =
     Inr \<lparr>r_metadata = \<lparr>r_Name = Some ''pkg'', r_Version = Some ''9.9.9'',
                          r_ID = ''6ba7b810-9dad-11d1-80b4-00c04fd430c8:pkg-9.9.9''\<rparr>,
          r_data = \<lparr>r_Content = Some ''UEsDBA=='', r_JSProgram = None\<rparr>\<rparr>
   \<and> map fst (s3 (snd (packageCreate env0 (Some ''UEsDBA=='') None None None None
          (Some \<lparr>m_Version = Some ''2.0.0'', m_ID = None, m_Name = None\<rparr>) world0))) =
       [''packages/pkg/v9.9.9/package.zip'']
   \<and> map pk_version (packages (snd (packageCreate env0 (Some ''UEsDBA=='') None None None None
          (Some \<lparr>m_Version = Some ''2.0.0'', m_ID = None, m_Name = None\<rparr>) world0))) = [''9.9.9'']"
  by (simp add: create_defs env0_def world0_def uuid_standin_def fromBase64_sample)

lemma initialVersion_cases:
  "initialVersion metadata =
     (case Option.bind metadata m_Version of
        None \<Rightarrow> Some ''1.0.0''
      | Some ver \<Rightarrow> if trim ver = [] then Some ''1.0.0'' else Some (trim ver))"
  by (simp add: initialVersion_def opt_trim_def truthy_def Let_def split: option.splits)

text \<open>
  C4, amended. When the request supplies a name, in \<open>Name\<close> or in the metadata, a
  successful ingestion uses one version throughout: the trimmed metadata version when
  that is not empty, 1.0.0 otherwise. It is the version of the response, of the hashed
  string, of the blob key and of the rows.
\<close>

theorem metadata_version_effective_when_named:
  assumes "truthy Name \<or> truthy (opt_trim (Option.bind metadata m_Name))"
    and "packageCreate E Content JSProgram URL debloat Name metadata w = (Inr resp, w')"
  shows "\<exists>n v. Some n = (if truthy Name then Some (trim (str Name)) else opt_trim (Option.bind metadata m_Name))
        \<and> Some v = (case Option.bind metadata m_Version of
                       None \<Rightarrow> Some ''1.0.0''
                     | Some ver \<Rightarrow> if trim ver = [] then Some ''1.0.0'' else Some (trim ver))
        \<and> r_Version (r_metadata resp) = Some v
        \<and> r_ID (r_metadata resp) = uuidv5 E (n @ ''-'' @ v) NAMESPACE
        \<and> S3PutObject (''packages/'' @ n @ ''/v'' @ v @ ''/package.zip'') \<in> set (trace w')
        \<and> map_of (s3 w') (''packages/'' @ n @ ''/v'' @ v @ ''/package.zip'') \<noteq> None
        \<and> pk_version (last (packages w')) = v
        \<and> pk_id (last (packages w')) = uuidv5 E (n @ ''-'' @ v) NAMESPACE
        \<and> last (package_metadata w') = (Some n, v, uuidv5 E (n @ ''-'' @ v) NAMESPACE)"
proof -
  from packageCreate_Inr [OF assms(2)] obtain packageName packageVersion repoOwner repoName w1
      contentBuffer returnString w3
    where x: "truthy URL \<noteq> truthy Content"
      and res: "resolveName E Content URL Name (opt_trim (Option.bind metadata m_Name)) (initialVersion metadata) w
        = (Inr (packageName, packageVersion, repoOwner, repoName), w1)"
      and up: "uploadArchive E Content URL packageName packageVersion repoOwner repoName
            (emit (DbPackageExists (Identity (uuidv5 E) packageName packageVersion)) w1)
          = (Inr (contentBuffer, returnString), w3)"
      and ins: "insertRows E JSProgram URL (nullish debloat False) packageName packageVersion
            (Identity (uuidv5 E) packageName packageVersion) contentBuffer returnString w3 = (Inr resp, w')"
    by blast
  from assms(1) have named: "truthy (opt_trim (Option.bind metadata m_Name)) \<or> truthy Name"
    by blast
  from res have pn: "packageName = (if truthy Name then Some (trim (str Name)) else opt_trim (Option.bind metadata m_Name))"
    and pv: "packageVersion = initialVersion metadata"
    unfolding resolveName_named [OF named] by simp_all
  have "\<exists>n. packageName = Some n"
  proof (cases "truthy Name")
    case True
    then show ?thesis by (simp add: pn)
  next
    case False
    with assms(1) have "truthy (opt_trim (Option.bind metadata m_Name))" by simp
    with False show ?thesis by (auto simp: pn truthy_def split: option.splits)
  qed
  then obtain n where n: "packageName = Some n" by blast
  have "\<exists>v. packageVersion = Some v"
    unfolding pv initialVersion_cases by (simp split: option.splits)
  then obtain v where v: "packageVersion = Some v" by blast
  note r = insertRows_Inr [OF ins]
  have key: "s3Key packageName packageVersion = ''packages/'' @ n @ ''/v'' @ v @ ''/package.zip''"
    by (simp add: s3Key_def n v tmpl_def)
  have idn: "Identity (uuidv5 E) packageName packageVersion = uuidv5 E (n @ ''-'' @ v) NAMESPACE"
    by (simp add: Identity_def n v tmpl_def)
  have put: "S3PutObject (s3Key packageName packageVersion) \<in> set (trace w3)
      \<and> map_of (s3 w3) (s3Key packageName packageVersion) \<noteq> None"
  proof (cases "truthy URL")
    case True
    with x have nc: "\<not> truthy Content" by simp
    from uploadArchive_url [OF True nc up] show ?thesis
      by (auto simp: map_of_upsert_same emit_def)
  next
    case False
    with x have c: "truthy Content" by simp
    from uploadArchive_inline [OF c False up] show ?thesis
      by (auto simp: map_of_upsert_same emit_def)
  qed
  have e1: "Some n = (if truthy Name then Some (trim (str Name)) else opt_trim (Option.bind metadata m_Name))"
    using pn n by simp
  have e2: "Some v = (case Option.bind metadata m_Version of
                       None \<Rightarrow> Some ''1.0.0''
                     | Some ver \<Rightarrow> if trim ver = [] then Some ''1.0.0'' else Some (trim ver))"
    using pv v initialVersion_cases [of metadata] by simp
  have rest: "r_Version (r_metadata resp) = Some v
        \<and> r_ID (r_metadata resp) = uuidv5 E (n @ ''-'' @ v) NAMESPACE
        \<and> S3PutObject (''packages/'' @ n @ ''/v'' @ v @ ''/package.zip'') \<in> set (trace w')
        \<and> map_of (s3 w') (''packages/'' @ n @ ''/v'' @ v @ ''/package.zip'') \<noteq> None
        \<and> pk_version (last (packages w')) = v
        \<and> pk_id (last (packages w')) = uuidv5 E (n @ ''-'' @ v) NAMESPACE
        \<and> last (package_metadata w') = (Some n, v, uuidv5 E (n @ ''-'' @ v) NAMESPACE)"
    using r put unfolding key idn unfolding n v by (simp add: nullish_def)
  from e1 e2 rest show ?thesis by blast
qed

theorem metadata_version_effective_when_named_witness:
  "r_Version (r_metadata (projr (fst (packageCreate env0 (Some ''UEsDBA=='') None None None (Some ''X'')
       (Some \<lparr>m_Version = Some '' 2.0.0 '', m_ID = None, m_Name = None\<rparr>) world0)))) = Some ''2.0.0''"
proof -
  obtain resp w' where ok: "packageCreate env0 (Some ''UEsDBA=='') None None None (Some ''X'')
       (Some \<lparr>m_Version = Some '' 2.0.0 '', m_ID = None, m_Name = None\<rparr>) world0 = (Inr resp, w')"
    by (simp add: create_defs env0_def world0_def uuid_standin_def fromBase64_sample)
  have named: "truthy (Some ''X'') \<or> truthy (opt_trim (Option.bind (Some \<lparr>m_Version = Some '' 2.0.0 '', m_ID = None, m_Name = None\<rparr>) m_Name))"
    by (simp add: truthy_def)
  from metadata_version_effective_when_named [OF named ok]
  have "r_Version (r_metadata resp) = Some ''2.0.0''"
    by (auto simp: trim_def is_ws_def)
  then show ?thesis by (simp add: ok)
qed

subsection \<open>The content of the response\<close>

text \<open>
  C10. After a successful ingestion from a URL, the archive downloaded from the zipball
  address is what the blob store holds at the package's key, and the response's
  \<open>Content\<close> is \<open>btoa\<close> of the base64 string of that archive, base64 applied twice.
  After a successful inline ingestion the response's \<open>Content\<close> is the request's, and
  the blob store holds its decoding. Both ingestions do succeed: \<open>url_sample\<close> and
  \<open>create_sample\<close> are the two runs that the witness goes through.
\<close>

theorem content_echo:
  assumes "packageCreate E Content JSProgram URL debloat Name metadata w = (Inr resp, w')"
  shows "(truthy URL \<longrightarrow>
            (\<exists>archive repoOwner repoName.
                axios_get E (zipballUrl repoOwner repoName) = Inr archive
              \<and> HttpGet (zipballUrl repoOwner repoName) \<in> set (trace w')
              \<and> r_Content (r_data resp) = Some (btoa (toBase64 archive))
              \<and> map_of (s3 w') (s3Key (r_Name (r_metadata resp)) (r_Version (r_metadata resp))) = Some archive))
       \<and> (truthy Content \<longrightarrow>
              r_Content (r_data resp) = Content
            \<and> map_of (s3 w') (s3Key (r_Name (r_metadata resp)) (r_Version (r_metadata resp)))
                = Some (fromBase64 (str Content)))"
proof -
  from packageCreate_Inr [OF assms] obtain packageName packageVersion repoOwner repoName w1
      contentBuffer returnString w3
    where x: "truthy URL \<noteq> truthy Content"
      and up: "uploadArchive E Content URL packageName packageVersion repoOwner repoName
            (emit (DbPackageExists (Identity (uuidv5 E) packageName packageVersion)) w1)
          = (Inr (contentBuffer, returnString), w3)"
      and ins: "insertRows E JSProgram URL (nullish debloat False) packageName packageVersion
            (Identity (uuidv5 E) packageName packageVersion) contentBuffer returnString w3 = (Inr resp, w')"
    by blast
  note r = insertRows_Inr [OF ins]
  show ?thesis
  proof (cases "truthy URL")
    case True
    with x have nc: "\<not> truthy Content" by simp
    from uploadArchive_url [OF True nc up] obtain archive where
      "axios_get E (zipballUrl repoOwner repoName) = Inr archive"
      "returnString = Some (btoa (toBase64 archive))"
      "w3 = (emit (S3PutObject (s3Key packageName packageVersion))
               (emit (HttpGet (zipballUrl repoOwner repoName))
                  (emit (DbPackageExists (Identity (uuidv5 E) packageName packageVersion)) w1)))
              \<lparr>s3 := upsert (s3Key packageName packageVersion) (fromBase64 (toBase64 archive))
                  (s3 (emit (DbPackageExists (Identity (uuidv5 E) packageName packageVersion)) w1))\<rparr>"
      by blast
    with r True nc show ?thesis
      by (auto simp: map_of_upsert_same fromBase64_toBase64 emit_def)
  next
    case False
    with x have c: "truthy Content" by simp
    from uploadArchive_inline [OF c False up] r c False show ?thesis
      by (simp add: map_of_upsert_same)
  qed
qed

lemma url_sample:
  "packageCreate env0 None None (Some ''https://github.com/lodash/lodash'') None None None world0 =
     (Inr respU, worldU)"
  by (simp add: create_defs env0_def world0_def uuid_standin_def repoMatch_sample toBase64_sample btoa_def
      respU_def worldU_def del: repoMatch.simps)

theorem content_echo_witness:
  "packageCreate env0 None None (Some ''https://github.com/lodash/lodash'') None None None world0 =
     (Inr respU, worldU)
   \<and> (\<exists>archive repoOwner repoName.
        axios_get env0 (zipballUrl repoOwner repoName) = Inr archive
      \<and> HttpGet (zipballUrl repoOwner repoName) \<in> set (trace worldU)
      \<and> r_Content (r_data respU) = Some (btoa (toBase64 archive))
      \<and> map_of (s3 worldU) ''packages/lodash/v9.9.9/package.zip'' = Some archive)
   \<and> r_Content (r_data respU) = Some (btoa (toBase64 ''PK''))
   \<and> map_of (s3 worldU) ''packages/lodash/v9.9.9/package.zip'' = Some ''PK''
   \<and> packageCreate env0 (Some ''UEsDBA=='') None None None (Some ''X'') None world0 = (Inr respX, worldX)
   \<and> r_Content (r_data respX) = Some ''UEsDBA==''
   \<and> map_of (s3 worldX) ''packages/X/v1.0.0/package.zip'' = Some (fromBase64 ''UEsDBA=='')"
proof -
  have ku: "s3Key (r_Name (r_metadata respU)) (r_Version (r_metadata respU)) =
      ''packages/lodash/v9.9.9/package.zip''"
    and kx: "s3Key (r_Name (r_metadata respX)) (r_Version (r_metadata respX)) =
      ''packages/X/v1.0.0/package.zip''"
    by (simp_all add: s3Key_def tmpl_def respU_def respX_def)
  from content_echo [OF url_sample] have
    u: "\<exists>archive repoOwner repoName.
        axios_get env0 (zipballUrl repoOwner repoName) = Inr archive
      \<and> HttpGet (zipballUrl repoOwner repoName) \<in> set (trace worldU)
      \<and> r_Content (r_data respU) = Some (btoa (toBase64 archive))
      \<and> map_of (s3 worldU) ''packages/lodash/v9.9.9/package.zip'' = Some archive"
    unfolding ku by (simp add: truthy_def)
  then obtain archive repoOwner repoName where
    g: "axios_get env0 (zipballUrl repoOwner repoName) = Inr archive"
    and c: "r_Content (r_data respU) = Some (btoa (toBase64 archive))"
    and b: "map_of (s3 worldU) ''packages/lodash/v9.9.9/package.zip'' = Some archive"
    by blast
  from g have "archive = ''PK''" by (simp add: env0_def)
  with c b have pk: "r_Content (r_data respU) = Some (btoa (toBase64 ''PK''))"
    "map_of (s3 worldU) ''packages/lodash/v9.9.9/package.zip'' = Some ''PK''"
    by simp_all
  from content_echo [OF create_sample] have
    i: "r_Content (r_data respX) = Some ''UEsDBA==''
      \<and> map_of (s3 worldX) ''packages/X/v1.0.0/package.zip'' = Some (fromBase64 ''UEsDBA=='')"
    unfolding kx by (simp add: truthy_def str_def)
  from url_sample create_sample u pk i show ?thesis by blast
qed

subsection \<open>Retrieval\<close>

text \<open>
  C5. Retrieving an id that no row has, on the empty registry: the 404 raised for it is
  caught by the function's own handler and leaves as a 500 with a prefixed message.
\<close>

theorem retrieve_unknown_id_reports_500:
  "packageRetrieve env0 ''no-such-id'' world0 =
     (Inl (CustomError ''Failed to retrieve package: Package not found.'' 500),
      world0\<lparr>trace := [DbSelectPackage ''no-such-id'']\<rparr>)"
  by (simp add: packageRetrieve_def selectPackage_def io_defs env0_def world0_def truthy_def)

text \<open>No 404 ever leaves \<open>packageRetrieve\<close>.\<close>

lemma retrieve_never_404:
  "fst (packageRetrieve E pid w) \<noteq> Inl (CustomError m 404)"
  by (auto simp: packageRetrieve_def try_catch_def throw_def split: prod.splits sum.splits)

text \<open>
  C1. The package just published is retrieved by the id that ingestion returned.
  Ingestion wrote the archive at \<open>packages/X/v1.0.0/package.zip\<close>; retrieval asks the
  blob store for \<open>packages/{id}/v1.0.0/package.zip\<close>, finds nothing there and fails.
\<close>

theorem create_then_retrieve_misses_blob:
  "(case packageCreate env0 (Some ''UEsDBA=='') None None None (Some ''X'') None world0 of
      (Inl e, w1) \<Rightarrow> False
    | (Inr resp, w1) \<Rightarrow>
        map fst (s3 w1) = [''packages/X/v1.0.0/package.zip'']
        \<and> fst (packageRetrieve env0 (r_ID (r_metadata resp)) w1) =
            Inl (CustomError ''Failed to retrieve package: The specified key does not exist.'' 500)
        \<and> last (trace (snd (packageRetrieve env0 (r_ID (r_metadata resp)) w1))) =
            S3GetObject ''packages/6ba7b810-9dad-11d1-80b4-00c04fd430c8:X-1.0.0/v1.0.0/package.zip'')"
  unfolding create_sample
  by (simp add: packageRetrieve_def selectPackage_def s3_getObject_def retrieveKey_def
        io_defs env0_def truthy_def respX_def worldX_def)

subsection \<open>Pagination\<close>

lemma toDouble_exact: "\<bar>k\<bar> \<le> 2 ^ 53 \<Longrightarrow> toDouble k = Num k"
  by (simp add: toDouble_def Let_def nat_le_iff)

lemma matching_emit [simp]: "matching E conditions (emit ev w) = matching E conditions w"
  by (simp add: matching_def emit_def)

lemma length_matching: "length (matching E conditions w) \<le> length (packages w)"
  by (simp add: matching_def)

lemma getPackages_Inr:
  assumes "getPackages E conditions lim offset w = (Inr pkgs, w')"
  shows "\<exists>k. offset = Num k \<and> 0 \<le> k \<and> k < 2 ^ 63 \<and> \<not> refused E conditions
     \<and> pkgs = take lim (drop (nat k) (matching E conditions w))"
  using assms
  by (auto simp: getPackages_def store_op_def split: option.splits js_number.splits if_splits)

lemma getPackages_result:
  assumes "fault E OpGetPackages = None" "\<not> refused E conditions" "0 \<le> k" "k < 2 ^ 63"
  shows "getPackages E conditions lim (Num k) w =
           (Inr (take lim (drop (nat k) (matching E conditions w))), emit DbGetPackages w)"
  using assms by (simp add: getPackages_def store_op_def)

lemma packagesList_Inr:
  assumes "packagesList E body offset w = (Inr r, w')"
  shows "\<exists>clauses k. whereClauses body = Inr clauses \<and> offsetValue offset = Num k \<and> 0 \<le> k
     \<and> l_packages r = take limit (drop (nat k) (matching E clauses w))
     \<and> l_nextOffset r = (if length (l_packages r) = limit then Some (toDouble (k + int limit)) else None)"
  using assms
  by (auto simp: packagesList_def try_catch_def io_bind_def ret_def throw_def
      split: sum.splits prod.splits js_error.splits dest!: getPackages_Inr)

lemma packagesList_result:
  assumes "whereClauses body = Inr clauses" "fault E OpGetPackages = None" "\<not> refused E clauses"
    and "offsetValue offset = Num k" "0 \<le> k" "k < 2 ^ 63"
  shows "packagesList E body offset w =
     (Inr \<lparr>l_packages = take limit (drop (nat k) (matching E clauses w)),
           l_nextOffset = (if length (take limit (drop (nat k) (matching E clauses w))) = limit
                           then Some (toDouble (k + int limit)) else None)\<rparr>,
      emit DbGetPackages w)"
  using assms
  by (simp add: packagesList_def try_catch_def io_bind_def ret_def getPackages_result)

text \<open>A full page at offset \<open>k\<close> ends within the table.\<close>

lemma full_page_bound:
  assumes "length (take 10 (drop (nat k) xs)) = 10" "0 \<le> k"
  shows "k + 10 \<le> int (length xs)"
  using assms by (simp add: min_def split: if_splits)

text \<open>
  C8. The registry holds at most \<open>2 ^ 53\<close> packages. A list query that returns has run
  at an offset \<open>k\<close> that is a number and not negative, and its \<open>nextOffset\<close> is
  \<open>k + 10\<close> when it returned exactly ten rows and null otherwise. When the store
  accepts the query and the matching rows are \<open>10 * m\<close> in number, the query at offset
  \<open>10 * m - 10\<close> returns ten rows and the cursor \<open>10 * m\<close>, and the query at that
  cursor returns no row and a null cursor.
\<close>

theorem pagination_cursor:
  assumes "length (packages w) \<le> 2 ^ 53"
  shows
  "(packagesList E body offset w = (Inr r, w') \<longrightarrow>
      (\<exists>k. offsetValue offset = Num k \<and> 0 \<le> k
         \<and> l_nextOffset r = (if length (l_packages r) = 10 then Some (Num (k + 10)) else None)))
   \<and> (whereClauses body = Inr clauses \<and> \<not> refused E clauses \<and> fault E OpGetPackages = None
        \<and> length (matching E clauses w) = 10 * m \<and> 0 < m
        \<and> offsetValue offset = Num (int (10 * m) - 10) \<longrightarrow>
        (\<exists>pkgs. packagesList E body offset w =
             (Inr \<lparr>l_packages = pkgs, l_nextOffset = Some (Num (int (10 * m)))\<rparr>, emit DbGetPackages w)
           \<and> length pkgs = 10))
   \<and> (whereClauses body = Inr clauses \<and> \<not> refused E clauses \<and> fault E OpGetPackages = None
        \<and> length (matching E clauses w) = 10 * m
        \<and> offsetValue offset = Num (int (10 * m)) \<longrightarrow>
        packagesList E body offset w =
          (Inr \<lparr>l_packages = [], l_nextOffset = None\<rparr>, emit DbGetPackages w))"
proof (intro conjI impI)
  assume "packagesList E body offset w = (Inr r, w')"
  from packagesList_Inr [OF this] obtain clauses k where
    k: "offsetValue offset = Num k" "0 \<le> k"
    and p: "l_packages r = take limit (drop (nat k) (matching E clauses w))"
    and n: "l_nextOffset r = (if length (l_packages r) = limit then Some (toDouble (k + int limit)) else None)"
    by blast
  have "toDouble (k + 10) = Num (k + 10)" if full: "length (l_packages r) = 10"
  proof -
    from full p have "length (take 10 (drop (nat k) (matching E clauses w))) = 10"
      by (simp add: limit_def)
    from full_page_bound [OF this k(2)] have "k + 10 \<le> int (length (matching E clauses w))" .
    also have "\<dots> \<le> int (length (packages w))" using length_matching [of E clauses w] by simp
    also have "\<dots> \<le> 2 ^ 53" using assms by simp
    finally have "\<bar>k + 10\<bar> \<le> 2 ^ 53" using k(2) by simp
    then show ?thesis by (rule toDouble_exact)
  qed
  with k n show "\<exists>k. offsetValue offset = Num k \<and> 0 \<le> k
         \<and> l_nextOffset r = (if length (l_packages r) = 10 then Some (Num (k + 10)) else None)"
    by (auto simp: limit_def)
next
  assume a: "whereClauses body = Inr clauses \<and> \<not> refused E clauses \<and> fault E OpGetPackages = None
        \<and> length (matching E clauses w) = 10 * m \<and> 0 < m
        \<and> offsetValue offset = Num (int (10 * m) - 10)"
  then have k: "0 \<le> int (10 * m) - 10" and n: "nat (int (10 * m) - 10) = 10 * m - 10" by auto
  from a have "int (10 * m) \<le> int (length (packages w))"
    using length_matching [of E clauses w] by simp
  with assms have b: "int (10 * m) \<le> 2 ^ 53" by simp
  then have k63: "int (10 * m) - 10 < 2 ^ 63" by simp
  from b have d: "toDouble (int (10 * m) - 10 + int limit) = Num (int (10 * m))"
    by (simp add: limit_def toDouble_exact)
  from a have len: "length (take limit (drop (nat (int (10 * m) - 10)) (matching E clauses w))) = 10"
    unfolding n by (simp add: limit_def)
  from a packagesList_result [of body clauses E offset "int (10 * m) - 10" w, OF _ _ _ _ k k63]
  show "\<exists>pkgs. packagesList E body offset w =
             (Inr \<lparr>l_packages = pkgs, l_nextOffset = Some (Num (int (10 * m)))\<rparr>, emit DbGetPackages w)
           \<and> length pkgs = 10"
    using len d by (simp add: limit_def)
next
  assume a: "whereClauses body = Inr clauses \<and> \<not> refused E clauses \<and> fault E OpGetPackages = None
        \<and> length (matching E clauses w) = 10 * m
        \<and> offsetValue offset = Num (int (10 * m))"
  then have "int (10 * m) \<le> int (length (packages w))"
    using length_matching [of E clauses w] by simp
  with assms have k63: "int (10 * m) < 2 ^ 63" by simp
  from a have e: "take limit (drop (nat (int (10 * m))) (matching E clauses w)) = []" by simp
  from a packagesList_result [of body clauses E offset "int (10 * m)" w, OF _ _ _ _ _ k63]
  show "packagesList E body offset w =
          (Inr \<lparr>l_packages = [], l_nextOffset = None\<rparr>, emit DbGetPackages w)"
    unfolding e by (simp add: limit_def)
qed

lemma offsetValue_samples:
  "offsetValue None = Num 0" "offsetValue (Some ''0'') = Num 0" "offsetValue (Some ''10'') = Num 10"
  by (simp_all add: offsetValue_def truthy_def str_def parseInt_def is_ws_def is_digit_def
      decimal_def digit_val_def toDouble_exact Let_def)

lemma matching_all_length: "length (matching E [] w) = length (packages w)"
  by (simp add: matching_def matches_def)

theorem pagination_cursor_witness:
  "(\<exists>pkgs. packagesList env0 [] (Some ''0'') world10 =
       (Inr \<lparr>l_packages = pkgs, l_nextOffset = Some (Num 10)\<rparr>, emit DbGetPackages world10)
     \<and> length pkgs = 10)
   \<and> packagesList env0 [] (Some ''10'') world10 =
       (Inr \<lparr>l_packages = [], l_nextOffset = None\<rparr>, emit DbGetPackages world10)
   \<and> (\<exists>k. offsetValue (Some ''10'') = Num k \<and> 0 \<le> k)"
proof -
  have s: "length (packages world10) \<le> 2 ^ 53" by (simp add: world10_def)
  have w: "whereClauses [] = Inr []" by (simp add: whereClauses_def)
  have n: "\<not> refused env0 []" by (simp add: refused_def)
  have f: "fault env0 OpGetPackages = None" by (simp add: env0_def)
  have l: "length (matching env0 [] world10) = 10 * 1"
    by (simp add: matching_all_length world10_def)
  note p = pagination_cursor [OF s, where E = env0 and body = "[]" and clauses = "[]" and m = 1]
  have a: "\<exists>pkgs. packagesList env0 [] (Some ''0'') world10 =
       (Inr \<lparr>l_packages = pkgs, l_nextOffset = Some (Num 10)\<rparr>, emit DbGetPackages world10)
     \<and> length pkgs = 10"
    using p [where offset = "Some ''0''"] w n f l by (simp add: offsetValue_samples)
  have b: "packagesList env0 [] (Some ''10'') world10 =
       (Inr \<lparr>l_packages = [], l_nextOffset = None\<rparr>, emit DbGetPackages world10)"
    using p [where offset = "Some ''10''"] w n f l by (simp add: offsetValue_samples)
  have c: "\<exists>k. offsetValue (Some ''10'') = Num k \<and> 0 \<le> k"
    using p [where offset = "Some ''10''" and r = "\<lparr>l_packages = [], l_nextOffset = None\<rparr>"
        and w' = "emit DbGetPackages world10"] b by auto
  from a b c show ?thesis by blast
qed

subsection \<open>Version filters\<close>

lemma plain_not_ws: "plain c \<Longrightarrow> \<not> is_ws c"
  by (auto simp: plain_def is_ws_def is_digit_def)

lemma digits1_Some:
  assumes "digits1 s = Some r"
  shows "\<exists>p. s = p @ r \<and> p \<noteq> [] \<and> list_all plain p \<and> is_digit (hd s)"
proof -
  from assms have ne: "takeWhile is_digit s \<noteq> []" and r: "r = dropWhile is_digit s"
    by (auto simp: digits1_def split: if_splits)
  have "s = takeWhile is_digit s @ r" by (simp add: r)
  moreover have "list_all plain (takeWhile is_digit s)"
    by (auto simp: list_all_iff plain_def dest: set_takeWhileD)
  moreover from ne have "is_digit (hd s)" by (cases s) (auto split: if_splits)
  ultimately show ?thesis using ne by blast
qed

lemma lit_Some: "lit c s = Some r \<Longrightarrow> s = c # r"
  by (auto simp: lit_def split: list.splits if_splits)

lemma xyz_Some:
  assumes "xyz s = Some r"
  shows "\<exists>p. s = p @ r \<and> p \<noteq> [] \<and> list_all plain p \<and> is_digit (hd s)"
proof -
  from assms obtain r1 r2 r3 r4 where
    a: "digits1 s = Some r1" and b: "lit CHR ''.'' r1 = Some r2" and c: "digits1 r2 = Some r3"
    and d: "lit CHR ''.'' r3 = Some r4" and e: "digits1 r4 = Some r"
    by (auto simp: xyz_def split: Option.bind_splits)
  from digits1_Some [OF a] obtain p1 where p1: "s = p1 @ r1" "p1 \<noteq> []" "list_all plain p1" "is_digit (hd s)" by blast
  from digits1_Some [OF c] obtain p3 where p3: "r2 = p3 @ r3" "list_all plain p3" by blast
  from digits1_Some [OF e] obtain p5 where p5: "r4 = p5 @ r" "list_all plain p5" by blast
  have "s = (p1 @ CHR ''.'' # p3 @ CHR ''.'' # p5) @ r"
    using p1(1) p3(1) p5(1) lit_Some [OF b] lit_Some [OF d] by simp
  moreover have "list_all plain (p1 @ CHR ''.'' # p3 @ CHR ''.'' # p5)"
    using p1(3) p3(2) p5(2) by (simp add: plain_def)
  ultimately show ?thesis using p1(2,4) by blast
qed

lemma re_exact_plain: "re_exact s \<Longrightarrow> s \<noteq> [] \<and> list_all plain s \<and> is_digit (hd s)"
  by (auto simp: re_exact_def at_end_def dest!: xyz_Some)

lemma re_range_plain: "re_range s \<Longrightarrow> s \<noteq> [] \<and> list_all plain s \<and> is_digit (hd s)"
proof -
  assume "re_range s"
  then obtain r1 r2 where a: "xyz s = Some r1" and b: "lit CHR ''-'' r1 = Some r2" and c: "xyz r2 = Some []"
    by (auto simp: re_range_def at_end_def split: Option.bind_splits)
  from xyz_Some [OF a] xyz_Some [OF c] lit_Some [OF b] show ?thesis
    by (auto simp: plain_def)
qed

lemma re_caret_plain: "re_caret s \<Longrightarrow> s \<noteq> [] \<and> list_all plain s \<and> hd s = CHR ''^''"
proof -
  assume "re_caret s"
  then obtain r1 where a: "lit CHR ''^'' s = Some r1" and c: "xyz r1 = Some []"
    by (auto simp: re_caret_def at_end_def split: Option.bind_splits)
  from xyz_Some [OF c] lit_Some [OF a] show ?thesis
    by (auto simp: plain_def)
qed

lemma re_tilde_plain: "re_tilde s \<Longrightarrow> s \<noteq> [] \<and> list_all plain s \<and> hd s = CHR ''~''"
proof -
  assume "re_tilde s"
  then obtain r1 where a: "lit CHR ''~'' s = Some r1" and c: "xyz r1 = Some []"
    by (auto simp: re_tilde_def at_end_def split: Option.bind_splits)
  from xyz_Some [OF c] lit_Some [OF a] show ?thesis
    by (auto simp: plain_def)
qed

lemma exact_not_range: "re_exact s \<Longrightarrow> \<not> re_range s"
  by (auto simp: re_exact_def re_range_def at_end_def lit_def split: Option.bind_splits)

lemma digit_not_mark: "is_digit c \<Longrightarrow> c \<noteq> CHR ''^'' \<and> c \<noteq> CHR ''~''"
  by (auto simp: is_digit_def)

text \<open>The four forms exclude each other.\<close>

lemma forms_exclusive: "length (filter (\<lambda>regex. regex s) versionFormats) \<le> 1"
  using exact_not_range [of s] re_exact_plain [of s] re_range_plain [of s] re_caret_plain [of s]
    re_tilde_plain [of s] digit_not_mark [of "hd s"]
  by (auto simp: versionFormats_def)

lemma one_form:
  "length (filter (\<lambda>regex. regex s) versionFormats) = 1 \<Longrightarrow>
     re_exact s \<or> re_range s \<or> re_caret s \<or> re_tilde s"
  by (auto simp: versionFormats_def split: if_splits)

lemma trim_plain:
  assumes "list_all plain s"
  shows "trim s = s"
proof -
  have d: "dropWhile is_ws xs = xs" if "list_all plain xs" for xs
    using that by (cases xs) (auto simp: plain_not_ws)
  from assms have "list_all plain (rev s)" by (simp add: list_all_iff)
  with assms show ?thesis by (simp add: trim_def d)
qed

lemma entryConditions_bad:
  assumes "truthy (q_Version q)" "length (filter (\<lambda>regex. regex (str (q_Version q))) versionFormats) \<noteq> 1"
  shows "entryConditions q = Inl (CustomError (''Invalid or ambiguous version format: '' @ str (q_Version q)) 400)"
  using assms by (simp add: entryConditions_def)

lemma entryConditions_good:
  assumes "truthy (q_Version q) \<longrightarrow> length (filter (\<lambda>regex. regex (str (q_Version q))) versionFormats) = 1"
  shows "\<exists>conditions. entryConditions q = Inr conditions"
proof (cases "truthy (q_Version q)")
  case False
  then show ?thesis by (simp add: entryConditions_def Let_def)
next
  case True
  with assms have one: "length (filter (\<lambda>regex. regex (str (q_Version q))) versionFormats) = 1" by simp
  from one_form [OF one] have "list_all plain (str (q_Version q))"
    using re_exact_plain re_range_plain re_caret_plain re_tilde_plain by blast
  then have t: "trim (str (q_Version q)) = str (q_Version q)" by (rule trim_plain)
  from one_form [OF one] True one show ?thesis
    by (auto simp: entryConditions_def Let_def t)
qed

lemma collectConditions_good:
  assumes "\<forall>q \<in> set body. truthy (q_Version q) \<longrightarrow>
             length (filter (\<lambda>regex. regex (str (q_Version q))) versionFormats) = 1"
  shows "\<exists>cs. collectConditions body acc = Inr cs"
  using assms
proof (induction body arbitrary: acc)
  case Nil
  then show ?case by simp
next
  case (Cons q body)
  from Cons.prems entryConditions_good [of q] obtain c where c: "entryConditions q = Inr c" by auto
  from Cons.prems have "\<forall>q \<in> set body. truthy (q_Version q) \<longrightarrow>
             length (filter (\<lambda>regex. regex (str (q_Version q))) versionFormats) = 1" by simp
  from Cons.IH [OF this] show ?case by (simp add: c)
qed

lemma collectConditions_bad:
  assumes "\<exists>q \<in> set body. truthy (q_Version q) \<and>
             length (filter (\<lambda>regex. regex (str (q_Version q))) versionFormats) \<noteq> 1"
  shows "\<exists>q \<in> set body. truthy (q_Version q)
           \<and> length (filter (\<lambda>regex. regex (str (q_Version q))) versionFormats) \<noteq> 1
           \<and> collectConditions body acc =
               Inl (CustomError (''Invalid or ambiguous version format: '' @ str (q_Version q)) 400)"
  using assms
proof (induction body arbitrary: acc)
  case Nil
  then show ?case by simp
next
  case (Cons q body)
  show ?case
  proof (cases "truthy (q_Version q) \<and> length (filter (\<lambda>regex. regex (str (q_Version q))) versionFormats) \<noteq> 1")
    case True
    then show ?thesis by (simp add: entryConditions_bad)
  next
    case False
    with entryConditions_good [of q] obtain c where c: "entryConditions q = Inr c" by auto
    from False Cons.prems have "\<exists>q \<in> set body. truthy (q_Version q) \<and>
             length (filter (\<lambda>regex. regex (str (q_Version q))) versionFormats) \<noteq> 1" by auto
    from Cons.IH [OF this] show ?thesis by (auto simp: c)
  qed
qed

lemma packagesList_queries:
  assumes "whereClauses body = Inr clauses"
  shows "snd (packagesList E body offset w) = emit DbGetPackages w"
  using assms
  by (auto simp: packagesList_def try_catch_def io_bind_def ret_def throw_def getPackages_def
      store_op_def split: sum.splits prod.splits js_error.splits option.splits js_number.splits
        if_splits)

lemma packagesList_rejects:
  assumes "whereClauses body = Inl (CustomError m c)"
  shows "packagesList E body offset w = (Inl (CustomError m c), w)"
  using assms by (simp add: packagesList_def try_catch_def throw_def)

lemmas form_defs = versionFormats_def re_exact_def re_range_def re_caret_def re_tilde_def
  at_end_def xyz_def digits1_def lit_def is_digit_def

lemma form_samples:
  "length (filter (\<lambda>regex. regex ''latest'') versionFormats) = 0"
  "length (filter (\<lambda>regex. regex ''^1.2.3'') versionFormats) = 1"
  "length (filter (\<lambda>regex. regex ''1.2'') versionFormats) = 0"
  by (simp_all add: form_defs)

text \<open>
  The special case: the sole entry has the name \<open>*\<close>. Its version is not looked at, here
  \<open>latest\<close>, which is of none of the four forms, and every package is selected.
\<close>

lemma wildcard_ignores_version:
  "length (filter (\<lambda>regex. regex ''latest'') versionFormats) = 0
   \<and> packagesList env0 [\<lparr>q_Version = Some ''latest'', q_ID = None, q_Name = Some ''*''\<rparr>] None world0 =
       (Inr \<lparr>l_packages = [], l_nextOffset = None\<rparr>, emit DbGetPackages world0)"
  by (simp add: form_samples packagesList_def whereClauses_def getPackages_def offsetValue_def
      truthy_def matching_def refused_def io_defs env0_def world0_def limit_def)

text \<open>
  C6. The body is not the special case of the single entry named \<open>*\<close>, which the
  version rule does not cover. When every entry that has a version has one of exactly
  one of the four forms, the WHERE clause is built and the query is sent to the store;
  otherwise the list query fails with the 400 "Invalid or ambiguous version format" of
  an offending entry and the store is not called. By \<open>forms_exclusive\<close> no string is of
  two forms, so an offending version is one of no form.
\<close>

theorem version_filter_validation:
  assumes "\<not> (length body = 1 \<and> q_Name (hd body) = Some ''*'')"
  shows "if \<forall>q \<in> set body. truthy (q_Version q) \<longrightarrow>
               length (filter (\<lambda>regex. regex (str (q_Version q))) versionFormats) = 1
         then (\<exists>clauses. whereClauses body = Inr clauses)
              \<and> snd (packagesList E body offset w) = emit DbGetPackages w
         else (\<exists>q \<in> set body. packagesList E body offset w =
                 (Inl (CustomError (''Invalid or ambiguous version format: '' @ str (q_Version q)) 400), w))"
proof (cases "\<forall>q \<in> set body. truthy (q_Version q) \<longrightarrow>
               length (filter (\<lambda>regex. regex (str (q_Version q))) versionFormats) = 1")
  case True
  from collectConditions_good [OF True, of "[]"] obtain cs where "collectConditions body [] = Inr cs" by blast
  then have "\<exists>clauses. whereClauses body = Inr clauses"
    by (simp add: whereClauses_def)
  with True packagesList_queries show ?thesis by auto
next
  case False
  then have ne: "body \<noteq> []" by auto
  from False have "\<exists>q \<in> set body. truthy (q_Version q) \<and>
             length (filter (\<lambda>regex. regex (str (q_Version q))) versionFormats) \<noteq> 1" by blast
  from collectConditions_bad [OF this, of "[]"] obtain q where q: "q \<in> set body"
    and c: "collectConditions body [] =
               Inl (CustomError (''Invalid or ambiguous version format: '' @ str (q_Version q)) 400)"
    by blast
  from assms ne c have "whereClauses body =
      Inl (CustomError (''Invalid or ambiguous version format: '' @ str (q_Version q)) 400)"
    by (simp add: whereClauses_def)
  from packagesList_rejects [OF this] q False show ?thesis by auto
qed

theorem version_filter_validation_witness:
  "snd (packagesList env0 [\<lparr>q_Version = Some ''^1.2.3'', q_ID = None, q_Name = Some ''React''\<rparr>] None world0) =
      emit DbGetPackages world0
   \<and> packagesList env0 [\<lparr>q_Version = Some ''1.2'', q_ID = None, q_Name = Some ''React''\<rparr>] None world0 =
      (Inl (CustomError ''Invalid or ambiguous version format: 1.2'' 400), world0)"
proof -
  have a: "snd (packagesList env0 [\<lparr>q_Version = Some ''^1.2.3'', q_ID = None, q_Name = Some ''React''\<rparr>] None world0) =
      emit DbGetPackages world0"
    using version_filter_validation [where body = "[\<lparr>q_Version = Some ''^1.2.3'', q_ID = None, q_Name = Some ''React''\<rparr>]"
        and E = env0 and offset = None and w = world0]
    by (simp add: form_samples str_def truthy_def)
  have b: "packagesList env0 [\<lparr>q_Version = Some ''1.2'', q_ID = None, q_Name = Some ''React''\<rparr>] None world0 =
      (Inl (CustomError ''Invalid or ambiguous version format: 1.2'' 400), world0)"
    using version_filter_validation [where body = "[\<lparr>q_Version = Some ''1.2'', q_ID = None, q_Name = Some ''React''\<rparr>]"
        and E = env0 and offset = None and w = world0]
    by (simp add: form_samples str_def truthy_def)
  from a b show ?thesis by blast
qed

subsection \<open>Reset\<close>

lemma set_keysUnder: "set (keysUnder pfx w) = {k \<in> fst ` set (s3 w). startsWith k pfx}"
  by (auto simp: keysUnder_def)

lemma keysUnder_emit [simp]: "keysUnder pfx (emit ev w) = keysUnder pfx w"
  by (simp add: keysUnder_def emit_def)

lemma keysUnder_trace [simp]: "keysUnder pfx (w\<lparr>trace := t\<rparr>) = keysUnder pfx w"
  by (simp add: keysUnder_def)

lemma keysUnder_after_delete:
  assumes "set (keysUnder pfx w) \<subseteq> set ks"
  shows "keysUnder pfx (w\<lparr>s3 := filter (\<lambda>(k, v). k \<notin> set ks) (s3 w)\<rparr>) = []"
proof -
  have "filter (\<lambda>k. startsWith k pfx) (map fst (filter (\<lambda>(k, v). k \<notin> set ks) (s3 w))) = []"
    using assms by (auto simp: set_keysUnder filter_empty_conv)
  then show ?thesis by (simp add: keysUnder_def)
qed

text \<open>The reset, case by case: which store operation fails first, if any.\<close>

lemma reset_list_fails:
  assumes "truthy (bucketName E)" "fault E OpListObjects = Some m"
  shows "registryReset E w =
     (Inl (Error (''Failed to reset registry: '' @ m)), emit (S3ListObjects ''packages/'') w)"
  using assms
  by (simp add: registryReset_def s3_listObjectsV2_def store_op_def try_catch_def io_bind_def throw_def)

lemma reset_delete_fails:
  assumes "truthy (bucketName E)" "fault E OpListObjects = None"
    and "take MaxKeys (keysUnder ''packages/'' w) \<noteq> []" "fault E OpDeleteObjects = Some m"
  shows "registryReset E w =
     (Inl (Error (''Failed to reset registry: '' @ m)),
      emit (S3DeleteObjects (take MaxKeys (keysUnder ''packages/'' w))) (emit (S3ListObjects ''packages/'') w))"
  using assms
  by (simp add: registryReset_def s3_listObjectsV2_def s3_deleteObjects_def store_op_def
      try_catch_def io_bind_def throw_def)

lemma withTables_fields [simp]:
  "s3 (withTables t w) = s3 w" "trace (withTables t w) = trace w"
  "tablesOf (withTables t w) = t"
  by (simp_all add: withTables_def tablesOf_def split: prod.splits)

lemma withTables_empty [simp]:
  "packages (withTables ([], [], []) w) = []" "package_metadata (withTables ([], [], []) w) = []"
  "package_data (withTables ([], [], []) w) = []"
  by (simp_all add: withTables_def)

lemma reset_sql_fails:
  assumes "truthy (bucketName E)" "fault E OpListObjects = None"
    and "take MaxKeys (keysUnder ''packages/'' w) \<noteq> [] \<longrightarrow> fault E OpDeleteObjects = None"
    and "fault E OpExecuteSqlFile = Some m"
  shows "registryReset E w =
     (Inl (Error (''Failed to reset registry: '' @ m)),
      withTables (failedReset E (tablesOf (emit DbExecuteSqlFile (afterPhase1 w))))
        (emit DbExecuteSqlFile (afterPhase1 w)))"
  using assms
  by (simp add: registryReset_def s3_listObjectsV2_def s3_deleteObjects_def executeSqlFile_def
      store_op_def try_catch_def io_bind_def throw_def ret_def afterPhase1_def Let_def emit_def)

lemma reset_succeeds:
  assumes "truthy (bucketName E)" "fault E OpListObjects = None"
    and "take MaxKeys (keysUnder ''packages/'' w) \<noteq> [] \<longrightarrow> fault E OpDeleteObjects = None"
    and "fault E OpExecuteSqlFile = None"
  shows "registryReset E w =
     (Inr (), withTables ([], [], []) (emit DbExecuteSqlFile (afterPhase1 w)))"
  using assms
  by (simp add: registryReset_def s3_listObjectsV2_def s3_deleteObjects_def executeSqlFile_def
      store_op_def try_catch_def io_bind_def throw_def ret_def afterPhase1_def Let_def emit_def)

lemma keysUnder_cong: "s3 w1 = s3 w2 \<Longrightarrow> keysUnder pfx w1 = keysUnder pfx w2"
  by (simp add: keysUnder_def)

lemma afterPhase1_s3:
  "s3 (afterPhase1 w) = filter (\<lambda>(k, v). k \<notin> set (take MaxKeys (keysUnder ''packages/'' w))) (s3 w)"
  by (simp add: afterPhase1_def Let_def emit_def)

lemma afterPhase1_trace:
  "trace (afterPhase1 w) = trace w @ S3ListObjects ''packages/'' #
     (if take MaxKeys (keysUnder ''packages/'' w) \<noteq> []
      then [S3DeleteObjects (take MaxKeys (keysUnder ''packages/'' w))] else [])"
  by (simp add: afterPhase1_def Let_def emit_def)

lemma keysUnder_afterPhase1:
  assumes "length (keysUnder ''packages/'' w) \<le> MaxKeys"
  shows "keysUnder ''packages/'' (afterPhase1 w) = []"
proof -
  from assms have t: "take MaxKeys (keysUnder ''packages/'' w) = keysUnder ''packages/'' w" by simp
  have "s3 (afterPhase1 w) =
      s3 (w\<lparr>s3 := filter (\<lambda>(k, v). k \<notin> set (keysUnder ''packages/'' w)) (s3 w)\<rparr>)"
    by (simp add: afterPhase1_s3 t)
  then have "keysUnder ''packages/'' (afterPhase1 w) =
      keysUnder ''packages/'' (w\<lparr>s3 := filter (\<lambda>(k, v). k \<notin> set (keysUnder ''packages/'' w)) (s3 w)\<rparr>)"
    by (rule keysUnder_cong)
  also have "\<dots> = []"
    by (rule keysUnder_after_delete) simp
  finally show ?thesis .
qed

text \<open>Every run of the reset, on a configured service, is one of four.\<close>

lemma reset_cases:
  assumes "truthy (bucketName E)"
  shows "(\<exists>m. fault E OpListObjects = Some m
            \<and> registryReset E w = (Inl (Error (''Failed to reset registry: '' @ m)),
                                   emit (S3ListObjects ''packages/'') w))
       \<or> (\<exists>m. fault E OpListObjects = None \<and> fault E OpDeleteObjects = Some m
            \<and> take MaxKeys (keysUnder ''packages/'' w) \<noteq> []
            \<and> registryReset E w = (Inl (Error (''Failed to reset registry: '' @ m)),
                 emit (S3DeleteObjects (take MaxKeys (keysUnder ''packages/'' w)))
                   (emit (S3ListObjects ''packages/'') w)))
       \<or> (\<exists>m. fault E OpListObjects = None \<and> fault E OpExecuteSqlFile = Some m
            \<and> (take MaxKeys (keysUnder ''packages/'' w) \<noteq> [] \<longrightarrow> fault E OpDeleteObjects = None)
            \<and> registryReset E w = (Inl (Error (''Failed to reset registry: '' @ m)),
                 withTables (failedReset E (tablesOf (emit DbExecuteSqlFile (afterPhase1 w))))
                   (emit DbExecuteSqlFile (afterPhase1 w))))
       \<or> registryReset E w =
            (Inr (), withTables ([], [], []) (emit DbExecuteSqlFile (afterPhase1 w)))"
proof (cases "fault E OpListObjects")
  case (Some m)
  with reset_list_fails [OF assms] show ?thesis by blast
next
  case None
  show ?thesis
  proof (cases "take MaxKeys (keysUnder ''packages/'' w) \<noteq> [] \<and> fault E OpDeleteObjects \<noteq> None")
    case True
    then obtain m where "fault E OpDeleteObjects = Some m" by auto
    with True None reset_delete_fails [OF assms None] show ?thesis by blast
  next
    case False
    then have d: "take MaxKeys (keysUnder ''packages/'' w) \<noteq> [] \<longrightarrow> fault E OpDeleteObjects = None"
      by blast
    show ?thesis
    proof (cases "fault E OpExecuteSqlFile")
      case (Some m)
      with None d reset_sql_fails [OF assms None d] show ?thesis by blast
    next
      case None2: None
      with reset_succeeds [OF assms None d] show ?thesis by blast
    qed
  qed
qed

lemma keysUnder_worldX: "keysUnder ''packages/'' worldX = [''packages/X/v1.0.0/package.zip'']"
  by (simp add: keysUnder_def worldX_def startsWith_def)

lemma afterPhase1_worldX: "s3 (afterPhase1 worldX) = []"
  by (simp add: afterPhase1_s3 keysUnder_worldX MaxKeys_def) (simp add: worldX_def)

text \<open>
  C9, as stated, fails on "reported as-is". The relational store refuses the reset with
  "connection refused"; the caller gets an \<open>Error\<close> whose message is that of the
  handler, with the store's message after it. By then the blob of \<open>X\<close> is deleted.
\<close>

theorem reset_failure_is_rewrapped:
  "fault envDbDown OpExecuteSqlFile = Some ''connection refused''
   \<and> fst (registryReset envDbDown worldX) = Inl (Error ''Failed to reset registry: connection refused'')
   \<and> s3 worldX = [(''packages/X/v1.0.0/package.zip'', [CHR ''P'', CHR ''K'', CHR 0x03, CHR 0x04])]
   \<and> s3 (snd (registryReset envDbDown worldX)) = []"
proof -
  have f: "fault envDbDown OpExecuteSqlFile = Some ''connection refused''"
    "fault envDbDown OpListObjects = None" "fault envDbDown OpDeleteObjects = None"
    and b: "truthy (bucketName envDbDown)"
    by (simp_all add: envDbDown_def env0_def truthy_def)
  have "registryReset envDbDown worldX =
     (Inl (Error (''Failed to reset registry: '' @ ''connection refused'')),
      withTables (failedReset envDbDown (tablesOf (emit DbExecuteSqlFile (afterPhase1 worldX))))
        (emit DbExecuteSqlFile (afterPhase1 worldX)))"
    by (rule reset_sql_fails [OF b f(2) _ f(1)]) (simp add: f)
  then show ?thesis using f(1) afterPhase1_worldX by (simp add: emit_def) (simp add: worldX_def)
qed

text \<open>
  C9, amended, for a service that has its bucket. A reset lists \<open>packages/\<close>, then
  deletes the listed keys when there are any, then resets the schema, in this order and
  each only when the calls before it succeeded. It ends in one of four ways, told apart
  by the calls it added to the trace. The listing failed, or the deletion failed: the
  result is an \<open>Error\<close> whose message is "Failed to reset registry: " followed by the
  message of that operation, and the tables are as before. The schema reset was called
  and failed: the \<open>Error\<close> has its message after the same prefix, and the listed objects
  stay deleted. The schema reset succeeded: the listed objects are deleted, the tables
  are empty, and no object under \<open>packages/\<close> remains when the listing held them all.
\<close>

theorem reset_phases:
  assumes "truthy (bucketName E)" and "registryReset E w = (res, w')"
  shows "\<exists>evs. trace w' = trace w @ S3ListObjects ''packages/'' # evs \<and>
    ((evs = []
        \<and> (\<exists>m. fault E OpListObjects = Some m \<and> res = Inl (Error (''Failed to reset registry: '' @ m)))
        \<and> s3 w' = s3 w \<and> tablesOf w' = tablesOf w)
     \<or> (evs = [S3DeleteObjects (take MaxKeys (keysUnder ''packages/'' w))]
        \<and> take MaxKeys (keysUnder ''packages/'' w) \<noteq> []
        \<and> fault E OpListObjects = None
        \<and> (\<exists>m. fault E OpDeleteObjects = Some m \<and> res = Inl (Error (''Failed to reset registry: '' @ m)))
        \<and> tablesOf w' = tablesOf w)
     \<or> (evs = (if take MaxKeys (keysUnder ''packages/'' w) \<noteq> []
                then [S3DeleteObjects (take MaxKeys (keysUnder ''packages/'' w))] else [])
               @ [DbExecuteSqlFile]
        \<and> fault E OpListObjects = None
        \<and> (take MaxKeys (keysUnder ''packages/'' w) \<noteq> [] \<longrightarrow> fault E OpDeleteObjects = None)
        \<and> (\<exists>m. fault E OpExecuteSqlFile = Some m \<and> res = Inl (Error (''Failed to reset registry: '' @ m)))
        \<and> s3 w' = filter (\<lambda>(k, v). k \<notin> set (take MaxKeys (keysUnder ''packages/'' w))) (s3 w))
     \<or> (evs = (if take MaxKeys (keysUnder ''packages/'' w) \<noteq> []
                then [S3DeleteObjects (take MaxKeys (keysUnder ''packages/'' w))] else [])
               @ [DbExecuteSqlFile]
        \<and> res = Inr ()
        \<and> s3 w' = filter (\<lambda>(k, v). k \<notin> set (take MaxKeys (keysUnder ''packages/'' w))) (s3 w)
        \<and> tablesOf w' = ([], [], [])
        \<and> (length (keysUnder ''packages/'' w) \<le> MaxKeys \<longrightarrow> keysUnder ''packages/'' w' = [])))"
proof -
  from reset_cases [OF assms(1), of w] show ?thesis
  proof (elim disjE exE conjE)
    fix m assume f: "fault E OpListObjects = Some m"
      and "registryReset E w = (Inl (Error (''Failed to reset registry: '' @ m)), emit (S3ListObjects ''packages/'') w)"
    with assms(2) have r: "res = Inl (Error (''Failed to reset registry: '' @ m))"
      and w': "w' = emit (S3ListObjects ''packages/'') w" by simp_all
    show ?thesis
      by (rule exI [of _ "[]"]) (simp add: r w' f emit_def tablesOf_def)
  next
    fix m assume f: "fault E OpListObjects = None" "fault E OpDeleteObjects = Some m"
      and ne: "take MaxKeys (keysUnder ''packages/'' w) \<noteq> []"
      and "registryReset E w = (Inl (Error (''Failed to reset registry: '' @ m)),
                 emit (S3DeleteObjects (take MaxKeys (keysUnder ''packages/'' w)))
                   (emit (S3ListObjects ''packages/'') w))"
    with assms(2) have r: "res = Inl (Error (''Failed to reset registry: '' @ m))"
      and w': "w' = emit (S3DeleteObjects (take MaxKeys (keysUnder ''packages/'' w)))
                   (emit (S3ListObjects ''packages/'') w)" by simp_all
    show ?thesis
      by (rule exI [of _ "[S3DeleteObjects (take MaxKeys (keysUnder ''packages/'' w))]"])
        (use ne in \<open>simp add: r w' f emit_def tablesOf_def\<close>)
  next
    fix m assume f: "fault E OpListObjects = None" "fault E OpExecuteSqlFile = Some m"
      and d: "take MaxKeys (keysUnder ''packages/'' w) \<noteq> [] \<longrightarrow> fault E OpDeleteObjects = None"
      and "registryReset E w = (Inl (Error (''Failed to reset registry: '' @ m)),
                 withTables (failedReset E (tablesOf (emit DbExecuteSqlFile (afterPhase1 w))))
                   (emit DbExecuteSqlFile (afterPhase1 w)))"
    with assms(2) have r: "res = Inl (Error (''Failed to reset registry: '' @ m))"
      and w': "w' = withTables (failedReset E (tablesOf (emit DbExecuteSqlFile (afterPhase1 w))))
                   (emit DbExecuteSqlFile (afterPhase1 w))" by simp_all
    have tr: "trace w' = trace (afterPhase1 w) @ [DbExecuteSqlFile]"
      and s: "s3 w' = s3 (afterPhase1 w)"
      by (simp_all add: w' emit_def)
    show ?thesis
      by (rule exI [of _ "(if take MaxKeys (keysUnder ''packages/'' w) \<noteq> []
                then [S3DeleteObjects (take MaxKeys (keysUnder ''packages/'' w))] else [])
               @ [DbExecuteSqlFile]"])
        (use d in \<open>simp add: r f tr s afterPhase1_s3 afterPhase1_trace\<close>)
  next
    assume "registryReset E w =
            (Inr (), withTables ([], [], []) (emit DbExecuteSqlFile (afterPhase1 w)))"
    with assms(2) have r: "res = Inr ()"
      and w': "w' = withTables ([], [], []) (emit DbExecuteSqlFile (afterPhase1 w))" by simp_all
    have tr: "trace w' = trace (afterPhase1 w) @ [DbExecuteSqlFile]"
      and tb: "tablesOf w' = ([], [], [])"
      and s: "s3 w' = s3 (afterPhase1 w)"
      by (simp_all add: w' emit_def)
    have k: "keysUnder ''packages/'' w' = keysUnder ''packages/'' (afterPhase1 w)"
      by (rule keysUnder_cong) (rule s)
    have ku: "length (keysUnder ''packages/'' w) \<le> MaxKeys \<longrightarrow> keysUnder ''packages/'' w' = []"
      using keysUnder_afterPhase1 k by simp
    show ?thesis
      by (rule exI [of _ "(if take MaxKeys (keysUnder ''packages/'' w) \<noteq> []
                then [S3DeleteObjects (take MaxKeys (keysUnder ''packages/'' w))] else [])
               @ [DbExecuteSqlFile]"])
        (use ku in \<open>simp add: r tr tb s afterPhase1_s3 afterPhase1_trace\<close>)
  qed
qed

theorem reset_phases_witness:
  "fst (registryReset env0 worldX) = Inr ()
   \<and> keysUnder ''packages/'' (snd (registryReset env0 worldX)) = []
   \<and> tablesOf (snd (registryReset env0 worldX)) = ([], [], [])
   \<and> fst (registryReset envDbDown worldX) = Inl (Error ''Failed to reset registry: connection refused'')
   \<and> s3 (snd (registryReset envDbDown worldX)) = []"
proof -
  have b: "truthy (bucketName env0)" by (simp add: env0_def truthy_def)
  have f: "fault env0 p = None" for p by (simp add: env0_def)
  have ks: "take MaxKeys (keysUnder ''packages/'' worldX) = [''packages/X/v1.0.0/package.zip'']"
    by (simp add: keysUnder_worldX MaxKeys_def)
  have fl: "filter (\<lambda>(k, v). k \<noteq> ''packages/X/v1.0.0/package.zip'') (s3 worldX) = []"
    by (simp add: worldX_def)
  have l: "length (keysUnder ''packages/'' worldX) \<le> MaxKeys"
    by (simp add: keysUnder_worldX MaxKeys_def)
  obtain w1 where ok: "registryReset env0 worldX = (Inr (), w1)"
    using reset_succeeds [OF b, of worldX] by (simp add: f)
  from reset_phases [OF b ok] l have s: "keysUnder ''packages/'' w1 = [] \<and> tablesOf w1 = ([], [], [])"
    by auto
  have b': "truthy (bucketName envDbDown)" by (simp add: envDbDown_def env0_def truthy_def)
  have f': "fault envDbDown OpListObjects = None" "fault envDbDown OpDeleteObjects = None"
    "fault envDbDown OpExecuteSqlFile = Some ''connection refused''"
    by (simp_all add: envDbDown_def env0_def)
  obtain e w2 where down: "registryReset envDbDown worldX = (Inl e, w2)"
    using reset_sql_fails [OF b' f'(1) _ f'(3), of worldX] by (simp add: f')
  from reset_phases [OF b' down] have
    "e = Error ''Failed to reset registry: connection refused'' \<and> s3 w2 = []"
    by (auto simp: f' ks fl)
  with s show ?thesis by (simp add: ok down)
qed

text \<open>Beyond one listing: with more objects than a listing returns, some survive the reset.\<close>

lemma nth_not_in_take:
  assumes "distinct xs" "n < length xs"
  shows "xs ! n \<notin> set (take n xs)"
proof
  assume "xs ! n \<in> set (take n xs)"
  then obtain j where j: "j < length (take n xs)" "take n xs ! j = xs ! n"
    by (auto simp: in_set_conv_nth)
  then have "j < n" "xs ! j = xs ! n" by simp_all
  with assms show False by (simp add: nth_eq_iff_index_eq)
qed

lemma reset_beyond_one_listing:
  assumes "truthy (bucketName E)" and "registryReset E w = (Inr (), w')"
    and "MaxKeys < length (keysUnder ''packages/'' w)"
  shows "keysUnder ''packages/'' w' \<noteq> []"
proof -
  let ?ks = "keysUnder ''packages/'' w"
  from reset_cases [OF assms(1), of w] assms(2)
  have w': "w' = withTables ([], [], []) (emit DbExecuteSqlFile (afterPhase1 w))"
    by auto
  have s: "s3 w' = filter (\<lambda>(k, v). k \<notin> set (take MaxKeys ?ks)) (s3 w)"
    by (simp add: w' emit_def afterPhase1_s3)
  have d: "distinct ?ks" by (simp add: keysUnder_def)
  from nth_not_in_take [OF d assms(3)] have out: "?ks ! MaxKeys \<notin> set (take MaxKeys ?ks)" .
  from assms(3) have "?ks ! MaxKeys \<in> set ?ks" by simp
  then have "?ks ! MaxKeys \<in> fst ` set (s3 w)" and p: "startsWith (?ks ! MaxKeys) ''packages/''"
    by (simp_all add: set_keysUnder)
  with out have "?ks ! MaxKeys \<in> fst ` set (s3 w')" by (force simp: s)
  with p have "?ks ! MaxKeys \<in> set (keysUnder ''packages/'' w')" by (simp add: set_keysUnder)
  then show ?thesis by auto
qed

lemma keysUnder_world1001: "length (keysUnder ''packages/'' world1001) = 1001"
proof -
  have i: "inj_on (\<lambda>i. ''packages/'' @ replicate i CHR ''a'') {0..<1001}"
    by (rule inj_onI) (simp add: replicate_eq_replicate)
  have m: "map fst (s3 world1001) = map (\<lambda>i. ''packages/'' @ replicate i CHR ''a'') [0..<1001]"
    by (simp add: world1001_def world0_def comp_def)
  have "filter (\<lambda>k. startsWith k ''packages/'') (map fst (s3 world1001)) = map fst (s3 world1001)"
    unfolding m by (simp add: filter_map comp_def startsWith_def)
  moreover have "distinct (map fst (s3 world1001))"
    unfolding m using i by (simp add: distinct_map)
  ultimately show ?thesis
    by (simp add: keysUnder_def distinct_remdups_id m)
qed

lemma reset_leaves_objects_world1001:
  "fst (registryReset env0 world1001) = Inr ()
   \<and> keysUnder ''packages/'' (snd (registryReset env0 world1001)) \<noteq> []"
proof -
  have b: "truthy (bucketName env0)" by (simp add: env0_def truthy_def)
  have f: "fault env0 p = None" for p by (simp add: env0_def)
  have ok: "registryReset env0 world1001 =
     (Inr (), withTables ([], [], []) (emit DbExecuteSqlFile (afterPhase1 world1001)))"
    by (rule reset_succeeds [OF b]) (simp_all add: f)
  have "MaxKeys < length (keysUnder ''packages/'' world1001)"
    by (simp add: keysUnder_world1001 MaxKeys_def)
  from reset_beyond_one_listing [OF b ok this] show ?thesis by (simp add: ok)
qed

end
